theory Spec2Isabelle
  imports Main "HOL-Library.Word"
begin

section \<open>Values of the generated API and of the CSI envelope\<close>

text \<open>
  Sizes are Go \<open>int64\<close> values: 64-bit words read as two's complement, compared with the
  signed orders \<open><s\<close> and \<open>\<le>s\<close>.
\<close>

type_synonym int64 = "64 word"

definition MaxInt64 :: int64 where
  "MaxInt64 = 0x7FFFFFFFFFFFFFFF"

text \<open>
  Modelled from the spec: the generated package \<open>api/generated/v1\<close> is not among the
  sources. The spec's data model lists the status enum as Creating, Created,
  FailedToCreate, Removing, Removed, and \<open>OperationalStatus_name\<close> is the generated
  table giving each value its text.
\<close>

datatype OperationalStatus = Creating | Created | FailedToCreate | Removing | Removed

fun OperationalStatus_name :: "OperationalStatus \<Rightarrow> string" where
  "OperationalStatus_name Creating = ''Creating''"
| "OperationalStatus_name Created = ''Created''"
| "OperationalStatus_name FailedToCreate = ''FailedToCreate''"
| "OperationalStatus_name Removing = ''Removing''"
| "OperationalStatus_name Removed = ''Removed''"

text \<open>
  Modelled from the spec: the storage class is an opaque tag; \<open>StorageClass_ANY\<close> is the
  tag written on a reinstated AvailableCapacity.
\<close>

type_synonym StorageClass = string

definition StorageClass_ANY :: StorageClass where
  "StorageClass_ANY = ''ANY''"

text \<open>\<open>api.AvailableCapacity\<close> and \<open>api.Volume\<close>, with the fields the controller uses.\<close>

record api_AvailableCapacity =
  AC_Size :: int64
  AC_Type :: StorageClass
  AC_Location :: string
  AC_NodeId :: string

record api_Volume =
  V_Id :: string
  V_Owner :: string
  V_Size :: int64
  V_Location :: string
  V_Status :: OperationalStatus

text \<open>
  A custom resource, as \<open>volumecrd.Volume\<close> and \<open>accrd.AvailableCapacity\<close> declare it:
  type metadata, object metadata and the spec. A Go map of annotations is a partial
  function; a nil map and an empty one read the same.
\<close>

record TypeMeta =
  Kind :: string
  APIVersion :: string

record ObjectMeta =
  Name :: string
  Namespace :: string
  Annotations :: "string \<rightharpoonup> string"

record 'spec CR =
  TypeMeta :: TypeMeta
  ObjectMeta :: ObjectMeta
  Spec :: 'spec

type_synonym Volume = "api_Volume CR"
type_synonym AvailableCapacity = "api_AvailableCapacity CR"

definition NodeIDTopologyKey :: string where
  "NodeIDTopologyKey = ''baremetal-csi/nodeid''"

definition VolumeStatusAnnotationKey :: string where
  "VolumeStatusAnnotationKey = ''dell.emc.csi/volume-status''"

text \<open>\<open>CreateLocalVolumeRequestTimeout\<close>, in seconds.\<close>

definition CreateLocalVolumeRequestTimeout :: nat where
  "CreateLocalVolumeRequestTimeout = 300"

text \<open>
  The CSI request and response messages. A message field that may be nil is an option;
  the capabilities are a slice, nil when absent. What a capability holds is never read.
\<close>

datatype VolumeCapability = Block | Mount

record CapacityRange =
  RequiredBytes :: int64
  LimitBytes :: int64

record Topology =
  Segments :: "string \<rightharpoonup> string"

record TopologyRequirement =
  Requisite :: "Topology list"
  Preferred :: "Topology list"

record CreateVolumeRequest =
  ReqName :: string
  CapacityRange :: "CapacityRange option"
  VolumeCapabilities :: "VolumeCapability list option"
  Parameters :: "string \<rightharpoonup> string"
  AccessibilityRequirements :: "TopologyRequirement option"

record DeleteVolumeRequest =
  VolumeId :: string

record csi_Volume =
  CsiVolumeId :: string
  CapacityBytes :: int64
  VolumeContext :: "string \<rightharpoonup> string"
  AccessibleTopology :: "Topology list"

text \<open>\<open>req.GetCapacityRange().GetRequiredBytes()\<close>: zero when the range is nil.\<close>

definition GetRequiredBytes :: "CreateVolumeRequest \<Rightarrow> int64" where
  "GetRequiredBytes req = (case CapacityRange req of None \<Rightarrow> 0 | Some r \<Rightarrow> RequiredBytes r)"

text \<open>
  How a call of the controller ends when it does not succeed: with a gRPC status
  (\<open>status.Error(code, ...)\<close>), with a plain Go error that carries no status
  (\<open>fmt.Errorf\<close>, \<open>errors.New\<close>), or with a runtime panic.
\<close>

datatype code = InvalidArgument | ResourceExhausted | Aborted | Internal | Unimplemented

datatype failure = Status code | PlainError | Panic

section \<open>The node agents\<close>

text \<open>
  The agent is an external service. Its client is a pair of functions from the timeout
  of the call's context (in seconds) and the request to the outcome of the RPC: a
  reply, a transport error, or the context's deadline.
\<close>

record CreateLocalVolumeRequest =
  PvcUUID :: string
  Capacity :: int64
  Sc :: string
  Location :: string

record DeleteLocalVolumeRequest =
  DelPvcUUID :: string

record LocalVolume =
  LV_Size :: int64
  LV_Location :: string

record DeleteLocalVolumeResponse =
  Ok :: bool
  RespVolume :: "LocalVolume option"

datatype 'a rpc_result = Reply 'a | RpcError | DeadlineExceeded

record VolumeManagerClient =
  CreateLocalVolume :: "nat \<Rightarrow> CreateLocalVolumeRequest \<Rightarrow> unit rpc_result"
  DeleteLocalVolume :: "nat \<Rightarrow> DeleteLocalVolumeRequest \<Rightarrow> DeleteLocalVolumeResponse rpc_result"

datatype agent_call =
  CreateLocalVolumeCall string nat CreateLocalVolumeRequest
| DeleteLocalVolumeCall string nat DeleteLocalVolumeRequest

section \<open>The object store behind the Kubernetes client\<close>

text \<open>
  The client is an external collaborator. The store holds the objects of each kind in
  a list, an object's key being its namespace and name. Every call of the client is
  recorded in \<open>calls\<close>, in order, and consumes one entry of \<open>faults\<close>: \<open>True\<close> makes
  the call fail with a server error and leave the store as it is, \<open>False\<close> (or an
  exhausted list) lets the store answer. \<open>rpcs\<close> records the calls made to the agents.
  \<open>rangeSeed\<close> stands for the order in which Go visits the keys of a map.
\<close>

datatype k8s_error = NotFound | AlreadyExists | ServerError

datatype k8s_call =
  GetVolume string string
| GetAC string string
| ListAC string
| CreateVolumeObj Volume
| CreateACObj AvailableCapacity
| UpdateVolumeObj Volume
| DeleteVolumeObj Volume
| DeleteACObj AvailableCapacity

record cluster =
  volumes :: "Volume list"
  capacities :: "AvailableCapacity list"
  faults :: "bool list"
  calls :: "k8s_call list"
  rpcs :: "agent_call list"
  rangeSeed :: nat

definition hasKey :: "string \<Rightarrow> string \<Rightarrow> 'a CR \<Rightarrow> bool" where
  "hasKey ns nm obj \<longleftrightarrow> Namespace (ObjectMeta obj) = ns \<and> Name (ObjectMeta obj) = nm"

definition sameKey :: "'a CR \<Rightarrow> 'a CR \<Rightarrow> bool" where
  "sameKey obj = hasKey (Namespace (ObjectMeta obj)) (Name (ObjectMeta obj))"

definition api_call :: "k8s_call \<Rightarrow> cluster \<Rightarrow> bool \<times> cluster" where
  "api_call k s =
     (case faults s of
        [] \<Rightarrow> (False, s\<lparr>calls := calls s @ [k]\<rparr>)
      | f # fs \<Rightarrow> (f, s\<lparr>faults := fs, calls := calls s @ [k]\<rparr>))"

definition client_Get_Volume :: "string \<Rightarrow> string \<Rightarrow> cluster \<Rightarrow> (k8s_error + Volume) \<times> cluster" where
  "client_Get_Volume ns nm s =
     (let (f, s1) = api_call (GetVolume ns nm) s in
      if f then (Inl ServerError, s1)
      else case find (hasKey ns nm) (volumes s1) of
             None \<Rightarrow> (Inl NotFound, s1)
           | Some v \<Rightarrow> (Inr v, s1))"

definition client_Get_AC :: "string \<Rightarrow> string \<Rightarrow> cluster \<Rightarrow> (k8s_error + AvailableCapacity) \<times> cluster" where
  "client_Get_AC ns nm s =
     (let (f, s1) = api_call (GetAC ns nm) s in
      if f then (Inl ServerError, s1)
      else case find (hasKey ns nm) (capacities s1) of
             None \<Rightarrow> (Inl NotFound, s1)
           | Some a \<Rightarrow> (Inr a, s1))"

definition client_List_AC :: "string \<Rightarrow> cluster \<Rightarrow> (k8s_error + AvailableCapacity list) \<times> cluster" where
  "client_List_AC ns s =
     (let (f, s1) = api_call (ListAC ns) s in
      if f then (Inl ServerError, s1)
      else (Inr (filter (\<lambda>a. Namespace (ObjectMeta a) = ns) (capacities s1)), s1))"

definition client_Create_Volume :: "Volume \<Rightarrow> cluster \<Rightarrow> (k8s_error + unit) \<times> cluster" where
  "client_Create_Volume obj s =
     (let (f, s1) = api_call (CreateVolumeObj obj) s in
      if f then (Inl ServerError, s1)
      else if \<exists>v \<in> set (volumes s1). sameKey obj v then (Inl AlreadyExists, s1)
      else (Inr (), s1\<lparr>volumes := volumes s1 @ [obj]\<rparr>))"

definition client_Create_AC :: "AvailableCapacity \<Rightarrow> cluster \<Rightarrow> (k8s_error + unit) \<times> cluster" where
  "client_Create_AC obj s =
     (let (f, s1) = api_call (CreateACObj obj) s in
      if f then (Inl ServerError, s1)
      else if \<exists>a \<in> set (capacities s1). sameKey obj a then (Inl AlreadyExists, s1)
      else (Inr (), s1\<lparr>capacities := capacities s1 @ [obj]\<rparr>))"

definition client_Update_Volume :: "Volume \<Rightarrow> cluster \<Rightarrow> (k8s_error + unit) \<times> cluster" where
  "client_Update_Volume obj s =
     (let (f, s1) = api_call (UpdateVolumeObj obj) s in
      if f then (Inl ServerError, s1)
      else if \<exists>v \<in> set (volumes s1). sameKey obj v
        then (Inr (), s1\<lparr>volumes := map (\<lambda>v. if sameKey obj v then obj else v) (volumes s1)\<rparr>)
      else (Inl NotFound, s1))"

definition client_Delete_Volume :: "Volume \<Rightarrow> cluster \<Rightarrow> (k8s_error + unit) \<times> cluster" where
  "client_Delete_Volume obj s =
     (let (f, s1) = api_call (DeleteVolumeObj obj) s in
      if f then (Inl ServerError, s1)
      else if \<exists>v \<in> set (volumes s1). sameKey obj v
        then (Inr (), s1\<lparr>volumes := filter (\<lambda>v. \<not> sameKey obj v) (volumes s1)\<rparr>)
      else (Inl NotFound, s1))"

definition client_Delete_AC :: "AvailableCapacity \<Rightarrow> cluster \<Rightarrow> (k8s_error + unit) \<times> cluster" where
  "client_Delete_AC obj s =
     (let (f, s1) = api_call (DeleteACObj obj) s in
      if f then (Inl ServerError, s1)
      else if \<exists>a \<in> set (capacities s1). sameKey obj a
        then (Inr (), s1\<lparr>capacities := filter (\<lambda>a. \<not> sameKey obj a) (capacities s1)\<rparr>)
      else (Inl NotFound, s1))"

section \<open>The controller's gateway to the store\<close>

text \<open>
  The controller with its namespace and its agent clients, one per node. The two
  mutexes serialise calls that this sequential model runs one after the other, so
  they have no counterpart here; nor has the log.
\<close>

record CSIControllerService =
  namespace :: string
  communicators :: "string \<rightharpoonup> VolumeManagerClient"

text \<open>
  A caller's context, as far as the controller reads it: the number of one-second
  ticks that fire before the context is done.
\<close>

record Context =
  seconds :: nat

definition WithTimeout :: "Context \<Rightarrow> nat \<Rightarrow> Context" where
  "WithTimeout ctx t = ctx\<lparr>seconds := min (seconds ctx) t\<rparr>"

text \<open>
  \<open>ReadCR\<close>, \<open>ReadList\<close>, \<open>CreateCR\<close>, \<open>UpdateCR\<close> and \<open>DeleteCR\<close> take any
  \<open>runtime.Object\<close>; each is written out for the kinds the controller passes. Where the
  source fills the object it is given, the model returns the object read.
\<close>

definition ReadCR :: "CSIControllerService \<Rightarrow> string \<Rightarrow> cluster \<Rightarrow> (k8s_error + Volume) \<times> cluster" where
  "ReadCR c name s = client_Get_Volume (namespace c) name s"

definition ReadList :: "CSIControllerService \<Rightarrow> cluster \<Rightarrow> (k8s_error + AvailableCapacity list) \<times> cluster" where
  "ReadList c s = client_List_AC (namespace c) s"

definition CreateCR_Volume ::
  "CSIControllerService \<Rightarrow> Volume \<Rightarrow> string \<Rightarrow> cluster \<Rightarrow> (k8s_error + Volume) \<times> cluster" where
  "CreateCR_Volume c obj name s =
     (case client_Get_Volume (namespace c) name s of
        (Inr found, s1) \<Rightarrow> (Inr found, s1)
      | (Inl err, s1) \<Rightarrow>
          if err = NotFound then
            (case client_Create_Volume obj s1 of
               (Inl e, s2) \<Rightarrow> (Inl e, s2)
             | (Inr u, s2) \<Rightarrow> (Inr obj, s2))
          else (Inl err, s1))"

definition CreateCR_AC ::
  "CSIControllerService \<Rightarrow> AvailableCapacity \<Rightarrow> string \<Rightarrow> cluster \<Rightarrow> (k8s_error + AvailableCapacity) \<times> cluster" where
  "CreateCR_AC c obj name s =
     (case client_Get_AC (namespace c) name s of
        (Inr found, s1) \<Rightarrow> (Inr found, s1)
      | (Inl err, s1) \<Rightarrow>
          if err = NotFound then
            (case client_Create_AC obj s1 of
               (Inl e, s2) \<Rightarrow> (Inl e, s2)
             | (Inr u, s2) \<Rightarrow> (Inr obj, s2))
          else (Inl err, s1))"

definition UpdateCR :: "CSIControllerService \<Rightarrow> Volume \<Rightarrow> cluster \<Rightarrow> (k8s_error + unit) \<times> cluster" where
  "UpdateCR c obj s = client_Update_Volume obj s"

definition DeleteCR_Volume :: "CSIControllerService \<Rightarrow> Volume \<Rightarrow> cluster \<Rightarrow> (k8s_error + unit) \<times> cluster" where
  "DeleteCR_Volume c obj s = client_Delete_Volume obj s"

definition DeleteCR_AC :: "CSIControllerService \<Rightarrow> AvailableCapacity \<Rightarrow> cluster \<Rightarrow> (k8s_error + unit) \<times> cluster" where
  "DeleteCR_AC c obj s = client_Delete_AC obj s"

definition constructAvailableCapacityCR ::
  "CSIControllerService \<Rightarrow> string \<Rightarrow> api_AvailableCapacity \<Rightarrow> AvailableCapacity" where
  "constructAvailableCapacityCR c name ac =
     \<lparr>TypeMeta = \<lparr>Kind = ''AvailableCapacity'', APIVersion = ''availablecapacity.dell.com/v1''\<rparr>,
      ObjectMeta = \<lparr>Name = name, Namespace = namespace c, Annotations = Map.empty\<rparr>,
      Spec = ac\<rparr>"

section \<open>The scheduler\<close>

text \<open>
  \<open>acNodeMapping\<close> groups the listed records by node. The Go map is an association
  list with one entry per node, in the order the nodes first occur; a lookup of a node
  that has no entry gives the nil slice.
\<close>

fun appendAC :: "AvailableCapacity \<Rightarrow> (string \<times> AvailableCapacity list) list \<Rightarrow> (string \<times> AvailableCapacity list) list" where
  "appendAC ac [] = [(AC_NodeId (Spec ac), [ac])]"
| "appendAC ac ((node, acs) # m) =
     (if node = AC_NodeId (Spec ac) then (node, acs @ [ac]) # m else (node, acs) # appendAC ac m)"

definition acNodeMapping :: "AvailableCapacity list \<Rightarrow> (string \<times> AvailableCapacity list) list" where
  "acNodeMapping acs = foldl (\<lambda>m ac. appendAC ac m) [] acs"

definition nodeACs :: "(string \<times> AvailableCapacity list) list \<Rightarrow> string \<Rightarrow> AvailableCapacity list" where
  "nodeACs m node = (case map_of m node of None \<Rightarrow> [] | Some acs \<Rightarrow> acs)"

text \<open>
  The loop over the map that picks the node with the most records when the request
  prefers none. Go visits the keys in an order of its own choosing; the model visits the
  entries rotated by \<open>rangeSeed\<close>, so every node a Go run can pick is picked for some seed.
\<close>

fun mostACs :: "(string \<times> AvailableCapacity list) list \<Rightarrow> string \<times> nat \<Rightarrow> string \<times> nat" where
  "mostACs [] (preferredNode, maxLen) = (preferredNode, maxLen)"
| "mostACs ((nodeID, acs) # rest) (preferredNode, maxLen) =
     (if length acs > maxLen then mostACs rest (nodeID, length acs)
      else mostACs rest (preferredNode, maxLen))"

text \<open>
  The loop over the records of the chosen node: \<open>foundAC\<close> and \<open>allocatedCapacity\<close> are
  the loop's two variables, the latter starting at \<open>math.MaxInt64\<close>.
\<close>

fun bestFit :: "int64 \<Rightarrow> AvailableCapacity list \<Rightarrow> AvailableCapacity option \<times> int64 \<Rightarrow> AvailableCapacity option \<times> int64" where
  "bestFit requiredBytes [] (foundAC, allocatedCapacity) = (foundAC, allocatedCapacity)"
| "bestFit requiredBytes (ac # acs) (foundAC, allocatedCapacity) =
     (if AC_Size (Spec ac) <s allocatedCapacity \<and> requiredBytes \<le>s AC_Size (Spec ac)
      then bestFit requiredBytes acs (Some ac, AC_Size (Spec ac))
      else bestFit requiredBytes acs (foundAC, allocatedCapacity))"

definition searchAvailableCapacity ::
  "CSIControllerService \<Rightarrow> string \<Rightarrow> int64 \<Rightarrow> cluster \<Rightarrow> AvailableCapacity option \<times> cluster" where
  "searchAvailableCapacity c preferredNode requiredBytes s =
     (case ReadList c s of
        (Inl err, s1) \<Rightarrow> (None, s1)
      | (Inr items, s1) \<Rightarrow>
          (let acNodeMap = acNodeMapping items;
               node = (if preferredNode = [] then fst (mostACs (rotate (rangeSeed s1) acNodeMap) (preferredNode, 0))
                       else preferredNode)
           in (fst (bestFit requiredBytes (nodeACs acNodeMap node) (None, MaxInt64)), s1)))"

section \<open>Changing and awaiting a Volume's status\<close>

text \<open>
  The two retry loops of \<open>changeVolumeStatus\<close>. The first reads the Volume into \<open>v\<close>,
  which stays as it was while reads fail: \<open>None\<close> is the zero Volume the source starts
  from. The second updates the store and gives up with a plain error after the last
  attempt. The pauses between attempts are not modelled.
\<close>

fun readAttempts :: "nat \<Rightarrow> CSIControllerService \<Rightarrow> string \<Rightarrow> Volume option \<Rightarrow> cluster \<Rightarrow> Volume option \<times> cluster" where
  "readAttempts 0 c volumeID v s = (v, s)"
| "readAttempts (Suc n) c volumeID v s =
     (case ReadCR c volumeID s of
        (Inr found, s1) \<Rightarrow> (Some found, s1)
      | (Inl err, s1) \<Rightarrow> readAttempts n c volumeID v s1)"

fun updateAttempts :: "nat \<Rightarrow> CSIControllerService \<Rightarrow> Volume \<Rightarrow> cluster \<Rightarrow> (failure + unit) \<times> cluster" where
  "updateAttempts 0 c v s = (Inl PlainError, s)"
| "updateAttempts (Suc n) c v s =
     (case UpdateCR c v s of
        (Inr u, s1) \<Rightarrow> (Inr (), s1)
      | (Inl err, s1) \<Rightarrow> updateAttempts n c v s1)"

text \<open>
  The mutation between the loops: the status and its annotation are set on \<open>v\<close>. On the
  zero Volume every other field is empty and the nil annotation map is made first.
\<close>

definition changeStatus :: "OperationalStatus \<Rightarrow> Volume option \<Rightarrow> Volume" where
  "changeStatus newStatus v =
     (case v of
        None \<Rightarrow>
          \<lparr>TypeMeta = \<lparr>Kind = [], APIVersion = []\<rparr>,
           ObjectMeta = \<lparr>Name = [], Namespace = [],
             Annotations = [VolumeStatusAnnotationKey \<mapsto> OperationalStatus_name newStatus]\<rparr>,
           Spec = \<lparr>V_Id = [], V_Owner = [], V_Size = 0, V_Location = [], V_Status = newStatus\<rparr>\<rparr>
      | Some vol \<Rightarrow>
          vol\<lparr>ObjectMeta := (ObjectMeta vol)\<lparr>Annotations :=
                 (Annotations (ObjectMeta vol))(VolumeStatusAnnotationKey \<mapsto> OperationalStatus_name newStatus)\<rparr>,
              Spec := (Spec vol)\<lparr>V_Status := newStatus\<rparr>\<rparr>)"

definition changeVolumeStatus ::
  "CSIControllerService \<Rightarrow> string \<Rightarrow> OperationalStatus \<Rightarrow> cluster \<Rightarrow> (failure + unit) \<times> cluster" where
  "changeVolumeStatus c volumeID newStatus s =
     (case readAttempts 10 c volumeID None s of
        (v, s1) \<Rightarrow> updateAttempts 10 c (changeStatus newStatus v) s1)"

text \<open>
  \<open>waitVCRStatus\<close> polls once per tick until the context is done: the number of polls
  is the number of ticks the context leaves. A failed read is retried at the next tick.
  The result \<open>-1\<close> of the source, returned with \<open>false\<close>, is \<open>None\<close>.
\<close>

fun waitLoop ::
  "nat \<Rightarrow> CSIControllerService \<Rightarrow> string \<Rightarrow> OperationalStatus list \<Rightarrow> cluster \<Rightarrow> (bool \<times> OperationalStatus option) \<times> cluster" where
  "waitLoop 0 c volumeID statuses s = ((False, None), s)"
| "waitLoop (Suc n) c volumeID statuses s =
     (case ReadCR c volumeID s of
        (Inl err, s1) \<Rightarrow> waitLoop n c volumeID statuses s1
      | (Inr v, s1) \<Rightarrow>
          (case find (\<lambda>st. V_Status (Spec v) = st) statuses of
             Some st \<Rightarrow> ((True, Some st), s1)
           | None \<Rightarrow> waitLoop n c volumeID statuses s1))"

definition waitVCRStatus ::
  "CSIControllerService \<Rightarrow> Context \<Rightarrow> string \<Rightarrow> OperationalStatus list \<Rightarrow> cluster \<Rightarrow> (bool \<times> OperationalStatus option) \<times> cluster" where
  "waitVCRStatus c ctx volumeID statuses s = waitLoop (seconds ctx) c volumeID statuses s"

section \<open>CreateVolume\<close>

text \<open>
  \<open>createLocalVolume\<close>, the task \<open>CreateVolume\<close> starts with \<open>go\<close>. The client of a node
  that has none is the nil interface, and the call on it panics. An error of
  \<open>changeVolumeStatus\<close> is logged and dropped.
\<close>

definition createLocalVolume ::
  "CSIControllerService \<Rightarrow> CreateVolumeRequest \<Rightarrow> AvailableCapacity \<Rightarrow> cluster \<Rightarrow> (failure + unit) \<times> cluster" where
  "createLocalVolume c req ac s =
     (let clvReq = \<lparr>PvcUUID = ReqName req, Capacity = GetRequiredBytes req, Sc = ''hdd'',
                    Location = AC_Location (Spec ac)\<rparr>;
          node = AC_NodeId (Spec ac)
      in case communicators c node of
           None \<Rightarrow> (Inl Panic, s)
         | Some mgr \<Rightarrow>
             (let s1 = s\<lparr>rpcs := rpcs s @ [CreateLocalVolumeCall node CreateLocalVolumeRequestTimeout clvReq]\<rparr>;
                  newStatus = (case CreateLocalVolume mgr CreateLocalVolumeRequestTimeout clvReq of
                                 Reply resp \<Rightarrow> Created
                               | RpcError \<Rightarrow> FailedToCreate
                               | DeadlineExceeded \<Rightarrow> FailedToCreate)
              in case changeVolumeStatus c (PvcUUID clvReq) newStatus s1 of
                   (r, s2) \<Rightarrow> (Inr (), s2)))"

text \<open>The preferred node of a request: \<open>Preferred[0]\<close> panics on an empty slice.\<close>

definition preferredNodeOf :: "CreateVolumeRequest \<Rightarrow> failure + string" where
  "preferredNodeOf req =
     (case AccessibilityRequirements req of
        None \<Rightarrow> Inr []
      | Some ar \<Rightarrow>
          (case Preferred ar of
             [] \<Rightarrow> Inl Panic
           | t # ts \<Rightarrow> Inr (case Segments t NodeIDTopologyKey of None \<Rightarrow> [] | Some node \<Rightarrow> node)))"

text \<open>The Volume record that \<open>CreateVolume\<close> builds for the chosen AvailableCapacity.\<close>

definition newVolumeCR :: "string \<Rightarrow> AvailableCapacity \<Rightarrow> Volume" where
  "newVolumeCR reqName ac =
     \<lparr>TypeMeta = \<lparr>Kind = ''Volume'', APIVersion = ''volume.dell.com/v1''\<rparr>,
      ObjectMeta = \<lparr>Name = reqName, Namespace = ''default'',
        Annotations = [VolumeStatusAnnotationKey \<mapsto> OperationalStatus_name Creating]\<rparr>,
      Spec = \<lparr>V_Id = reqName, V_Owner = AC_NodeId (Spec ac), V_Size = AC_Size (Spec ac),
              V_Location = AC_Location (Spec ac), V_Status = Creating\<rparr>\<rparr>"

text \<open>The end of \<open>CreateVolume\<close>, which both branches of its switch reach.\<close>

definition awaitCreated ::
  "CSIControllerService \<Rightarrow> Context \<Rightarrow> CreateVolumeRequest \<Rightarrow> Volume \<Rightarrow> cluster \<Rightarrow> (failure + csi_Volume) \<times> cluster" where
  "awaitCreated c ctx req volumeCR s =
     (case waitVCRStatus c ctx (ReqName req) [Created, FailedToCreate] s of
        ((reached, st), s1) \<Rightarrow>
          if reached then
            (if st = Some FailedToCreate then (Inl (Status Internal), s1)
             else (Inr \<lparr>CsiVolumeId = ReqName req,
                        CapacityBytes = V_Size (Spec volumeCR),
                        VolumeContext = Parameters req,
                        AccessibleTopology = [\<lparr>Segments = [NodeIDTopologyKey \<mapsto> V_Owner (Spec volumeCR)]\<rparr>]\<rparr>, s1))
          else (Inl (Status Aborted), s1))"

text \<open>
  The default branch of the switch in \<open>CreateVolume\<close> up to the release of the request
  lock: the node is chosen, the scheduler asked, the Volume record created and the chosen
  AvailableCapacity deleted, a failure of the deletion being logged and dropped.
\<close>

definition reserveVolume ::
  "CSIControllerService \<Rightarrow> CreateVolumeRequest \<Rightarrow> cluster \<Rightarrow> (failure + Volume \<times> AvailableCapacity) \<times> cluster" where
  "reserveVolume c req s =
     (case preferredNodeOf req of
        Inl p \<Rightarrow> (Inl p, s)
      | Inr preferredNode \<Rightarrow>
          (case searchAvailableCapacity c preferredNode (GetRequiredBytes req) s of
             (None, s2) \<Rightarrow> (Inl (Status ResourceExhausted), s2)
           | (Some ac, s2) \<Rightarrow>
               (case CreateCR_Volume c (newVolumeCR (ReqName req) ac) (ReqName req) s2 of
                  (Inl e, s3) \<Rightarrow> (Inl (Status Internal), s3)
                | (Inr volumeCR, s3) \<Rightarrow>
                    (case DeleteCR_AC c ac s3 of
                       (r, s4) \<Rightarrow> (Inr (volumeCR, ac), s4)))))"

text \<open>
  \<open>CreateVolume\<close>. The task started with \<open>go\<close> runs to its end where it is started, and
  the polls of \<open>waitVCRStatus\<close>, which only read, come after it: one of the schedules of
  the source. A panic of the task ends the process, and so the call.
\<close>

definition CreateVolume ::
  "CSIControllerService \<Rightarrow> Context \<Rightarrow> CreateVolumeRequest \<Rightarrow> cluster \<Rightarrow> (failure + csi_Volume) \<times> cluster" where
  "CreateVolume c ctx req s =
     (if ReqName req = [] then (Inl (Status InvalidArgument), s)
      else if VolumeCapabilities req = None then (Inl (Status InvalidArgument), s)
      else
        (case ReadCR c (ReqName req) s of
           (Inr volumeCR, s1) \<Rightarrow> awaitCreated c ctx req volumeCR s1
         | (Inl err, s1) \<Rightarrow>
             if err \<noteq> NotFound then (Inl (Status Aborted), s1)
             else
               (case reserveVolume c req s1 of
                  (Inl e, s4) \<Rightarrow> (Inl e, s4)
                | (Inr (volumeCR, ac), s4) \<Rightarrow>
                    (case createLocalVolume c req ac s4 of
                       (Inl p, s5) \<Rightarrow> (Inl p, s5)
                     | (Inr u, s5) \<Rightarrow> awaitCreated c ctx req volumeCR s5))))"

section \<open>DeleteVolume\<close>

text \<open>
  \<open>strings.ToLower\<close> on the bytes of a string: the letters A to Z are lowered, every
  other byte is kept (the source also lowers letters outside ASCII).
\<close>

definition toLowerChar :: "char \<Rightarrow> char" where
  "toLowerChar ch =
     (case map_of (zip ''ABCDEFGHIJKLMNOPQRSTUVWXYZ'' ''abcdefghijklmnopqrstuvwxyz'') ch of
        None \<Rightarrow> ch
      | Some lower \<Rightarrow> lower)"

definition ToLower :: "string \<Rightarrow> string" where
  "ToLower str = map toLowerChar str"

definition DeleteVolume ::
  "CSIControllerService \<Rightarrow> Context \<Rightarrow> DeleteVolumeRequest \<Rightarrow> cluster \<Rightarrow> (failure + unit) \<times> cluster" where
  "DeleteVolume c ctx req s =
     (if VolumeId req = [] then (Inl (Status InvalidArgument), s)
      else
        (let ctxT = WithTimeout ctx CreateLocalVolumeRequestTimeout in
         case ReadCR c (VolumeId req) s of
           (Inl err, s1) \<Rightarrow>
             if err = NotFound then (Inr (), s1) else (Inl PlainError, s1)
         | (Inr volume, s1) \<Rightarrow>
             (let node = V_Owner (Spec volume) in
              case communicators c node of
                None \<Rightarrow> (Inl Panic, s1)
              | Some mgr \<Rightarrow>
                  (let dlvReq = \<lparr>DelPvcUUID = VolumeId req\<rparr>;
                       s2 = s1\<lparr>rpcs := rpcs s1 @ [DeleteLocalVolumeCall node (seconds ctxT) dlvReq]\<rparr>
                   in case DeleteLocalVolume mgr (seconds ctxT) dlvReq of
                        RpcError \<Rightarrow> (Inl (Status Internal), s2)
                      | DeadlineExceeded \<Rightarrow> (Inl (Status Internal), s2)
                      | Reply resp \<Rightarrow>
                          if \<not> Ok resp then (Inl (Status Internal), s2)
                          else
                            (case RespVolume resp of
                               None \<Rightarrow> (Inl (Status Internal), s2)
                             | Some localVolume \<Rightarrow>
                                 (case DeleteCR_Volume c volume s2 of
                                    (Inl e, s3) \<Rightarrow> (Inl (Status Internal), s3)
                                  | (Inr u, s3) \<Rightarrow>
                                      (let ac = \<lparr>AC_Size = LV_Size localVolume, AC_Type = StorageClass_ANY,
                                                 AC_Location = LV_Location localVolume, AC_NodeId = node\<rparr>;
                                           location = ToLower (LV_Location localVolume);
                                           name = node @ ''-'' @ location;
                                           cr = constructAvailableCapacityCR c name ac
                                       in case CreateCR_AC c cr name s3 of
                                            (r, s4) \<Rightarrow> (Inr (), s4))))))))"

section \<open>Predicates of the statements\<close>

text \<open>
  A Volume record is in sync when its status annotation is the text of its status. A
  call of the client is in sync when the Volume it creates or updates, if any, is.
\<close>

definition synced :: "Volume \<Rightarrow> bool" where
  "synced v \<longleftrightarrow>
     Annotations (ObjectMeta v) VolumeStatusAnnotationKey = Some (OperationalStatus_name (V_Status (Spec v)))"

fun syncedCall :: "k8s_call \<Rightarrow> bool" where
  "syncedCall (CreateVolumeObj v) = synced v"
| "syncedCall (UpdateVolumeObj v) = synced v"
| "syncedCall k = True"

text \<open>
  The writes of a cluster are in sync when every Volume the client was asked to create or
  update is; its records are in sync when every Volume record of the store is.
\<close>

definition writesInSync :: "cluster \<Rightarrow> bool" where
  "writesInSync s \<longleftrightarrow> list_all syncedCall (calls s)"

definition recordsInSync :: "cluster \<Rightarrow> bool" where
  "recordsInSync s \<longleftrightarrow> list_all synced (volumes s)"

text \<open>
  The AvailableCapacity set of a cluster by key and size. A store is well formed when
  no two AvailableCapacity records share a key and each is named after its node and the
  lowered location of its disk, as the controller names the records it creates.
\<close>

definition objKey :: "'a CR \<Rightarrow> string \<times> string" where
  "objKey obj = (Namespace (ObjectMeta obj), Name (ObjectMeta obj))"

definition keySizes :: "cluster \<Rightarrow> ((string \<times> string) \<times> int64) set" where
  "keySizes s = set (map (\<lambda>a. (objKey a, AC_Size (Spec a))) (capacities s))"

definition canonicalAC :: "AvailableCapacity \<Rightarrow> bool" where
  "canonicalAC a \<longleftrightarrow>
     Name (ObjectMeta a) = AC_NodeId (Spec a) @ ''-'' @ ToLower (AC_Location (Spec a))"

definition wellFormed :: "cluster \<Rightarrow> bool" where
  "wellFormed s \<longleftrightarrow> distinct (map objKey (capacities s)) \<and> list_all canonicalAC (capacities s)"

text \<open>
  The number of calls in a row that the store fails, from the next one on, and the
  faults left once it has answered the call after them.
\<close>

definition refusals :: "bool list \<Rightarrow> nat" where
  "refusals fs = length (takeWhile (\<lambda>f. f) fs)"

definition afterAnswer :: "bool list \<Rightarrow> bool list" where
  "afterAnswer fs = drop (Suc (refusals fs)) fs"

text \<open>
  What a Volume record holds of its reservation: its key, its owner, and the location
  and size of its disk.
\<close>

definition reservation :: "Volume \<Rightarrow> (string \<times> string) \<times> string \<times> string \<times> int64" where
  "reservation v = (objKey v, V_Owner (Spec v), V_Location (Spec v), V_Size (Spec v))"

text \<open>
  The agent's answer to the DeleteLocalVolume of a Volume names the disk reserved for
  it: the agent of the Volume's owner replies with a volume whose size and location are
  those the Volume record holds, which are those of the AvailableCapacity it consumed.
\<close>

definition replyNamesDisk :: "CSIControllerService \<Rightarrow> Context \<Rightarrow> string \<Rightarrow> cluster \<Rightarrow> bool" where
  "replyNamesDisk c ctx volumeID s =
     (case find (hasKey (namespace c) volumeID) (volumes s) of
        None \<Rightarrow> False
      | Some v \<Rightarrow>
          (case communicators c (V_Owner (Spec v)) of
             None \<Rightarrow> False
           | Some mgr \<Rightarrow>
               (case DeleteLocalVolume mgr (seconds (WithTimeout ctx CreateLocalVolumeRequestTimeout))
                       \<lparr>DelPvcUUID = volumeID\<rparr> of
                  Reply resp \<Rightarrow>
                    (case RespVolume resp of
                       None \<Rightarrow> False
                     | Some lv \<Rightarrow> LV_Size lv = V_Size (Spec v) \<and> LV_Location lv = V_Location (Spec v))
                | RpcError \<Rightarrow> False
                | DeadlineExceeded \<Rightarrow> False)))"

section \<open>A sample cluster\<close>

text \<open>
  One node, \<open>node-A\<close>, with two free disks of 50 and 100 bytes, and an agent that
  creates every volume and reports the 50-byte disk on deletion.
\<close>

definition sampleAC :: "string \<Rightarrow> string \<Rightarrow> int64 \<Rightarrow> AvailableCapacity" where
  "sampleAC node loc sz =
     \<lparr>TypeMeta = \<lparr>Kind = ''AvailableCapacity'', APIVersion = ''availablecapacity.dell.com/v1''\<rparr>,
      ObjectMeta = \<lparr>Name = node @ ''-'' @ ToLower loc, Namespace = ''default'', Annotations = Map.empty\<rparr>,
      Spec = \<lparr>AC_Size = sz, AC_Type = StorageClass_ANY, AC_Location = loc, AC_NodeId = node\<rparr>\<rparr>"

definition sampleCluster :: cluster where
  "sampleCluster =
     \<lparr>volumes = [],
      capacities = [sampleAC ''node-A'' ''SN1'' 100, sampleAC ''node-A'' ''SN2'' 50],
      faults = [], calls = [], rpcs = [], rangeSeed = 0\<rparr>"

definition sampleAgent :: VolumeManagerClient where
  "sampleAgent =
     \<lparr>CreateLocalVolume = (\<lambda>t r. Reply ()),
      DeleteLocalVolume = (\<lambda>t r. Reply \<lparr>Ok = True, RespVolume = Some \<lparr>LV_Size = 50, LV_Location = ''SN2''\<rparr>\<rparr>)\<rparr>"

definition sampleController :: CSIControllerService where
  "sampleController = \<lparr>namespace = ''default'', communicators = [''node-A'' \<mapsto> sampleAgent]\<rparr>"

definition sampleRequest :: CreateVolumeRequest where
  "sampleRequest =
     \<lparr>ReqName = ''v1'', CapacityRange = Some \<lparr>RequiredBytes = 40, LimitBytes = 0\<rparr>,
      VolumeCapabilities = Some [Mount], Parameters = Map.empty, AccessibilityRequirements = None\<rparr>"

text \<open>What CreateVolume answers to the sample request on the sample cluster.\<close>

definition sampleResponse :: csi_Volume where
  "sampleResponse =
     \<lparr>CsiVolumeId = ''v1'', CapacityBytes = 50, VolumeContext = Map.empty,
      AccessibleTopology = [\<lparr>Segments = [NodeIDTopologyKey \<mapsto> ''node-A'']\<rparr>]\<rparr>"

lemmas sample_defs =
  sampleAC_def sampleCluster_def sampleAgent_def sampleController_def sampleRequest_def

lemmas client_defs =
  api_call_def client_Get_Volume_def client_Get_AC_def client_List_AC_def client_Create_Volume_def
  client_Create_AC_def client_Update_Volume_def client_Delete_Volume_def client_Delete_AC_def
  hasKey_def sameKey_def

lemmas gateway_defs =
  ReadCR_def ReadList_def CreateCR_Volume_def CreateCR_AC_def UpdateCR_def DeleteCR_Volume_def
  DeleteCR_AC_def constructAvailableCapacityCR_def

section \<open>Validation of a CreateVolume request\<close>

text \<open>
  C5. A CreateVolume request with an empty name, or with no volume capabilities, fails
  with InvalidArgument and leaves the cluster as it was, the record of the store's calls
  included: the store is neither read nor written.
\<close>

theorem CreateVolume_InvalidArgument:
  assumes "ReqName req = [] \<or> VolumeCapabilities req = None"
  shows "CreateVolume c ctx req s = (Inl (Status InvalidArgument), s)"
  using assms by (auto simp: CreateVolume_def)

theorem CreateVolume_InvalidArgument_witness:
  "CreateVolume sampleController \<lparr>seconds = 5\<rparr> (sampleRequest\<lparr>ReqName := []\<rparr>) sampleCluster
     = (Inl (Status InvalidArgument), sampleCluster)
   \<and> CreateVolume sampleController \<lparr>seconds = 5\<rparr> (sampleRequest\<lparr>VolumeCapabilities := None\<rparr>) sampleCluster
     = (Inl (Status InvalidArgument), sampleCluster)"
  using CreateVolume_InvalidArgument [of "sampleRequest\<lparr>ReqName := []\<rparr>" sampleController "\<lparr>seconds = 5\<rparr>" sampleCluster]
    CreateVolume_InvalidArgument [of "sampleRequest\<lparr>VolumeCapabilities := None\<rparr>" sampleController "\<lparr>seconds = 5\<rparr>" sampleCluster]
  by simp

section \<open>The preferred node of a request\<close>

text \<open>
  C9. On a request that reaches the choice of the node (a name, capabilities, and a read
  of the Volume that reports NotFound), accessibility requirements with an empty
  Preferred list make CreateVolume panic, in the state the read left, instead of
  returning an error; and the indexing of the first preferred entry panics exactly when
  the requirements are present with an empty Preferred list.
\<close>

theorem CreateVolume_Preferred_panic:
  assumes "ReqName req \<noteq> []" and "VolumeCapabilities req \<noteq> None"
    and "ReadCR c (ReqName req) s = (Inl NotFound, s1)"
  shows "(\<forall>ar. AccessibilityRequirements req = Some ar \<and> Preferred ar = []
            \<longrightarrow> CreateVolume c ctx req s = (Inl Panic, s1))
       \<and> ((preferredNodeOf req = Inl Panic)
            = (\<exists>ar. AccessibilityRequirements req = Some ar \<and> Preferred ar = []))"
  using assms
  by (auto simp: CreateVolume_def reserveVolume_def preferredNodeOf_def split: option.splits list.splits)

theorem CreateVolume_Preferred_panic_witness:
  "CreateVolume sampleController \<lparr>seconds = 5\<rparr>
     (sampleRequest\<lparr>AccessibilityRequirements := Some \<lparr>Requisite = [], Preferred = []\<rparr>\<rparr>) sampleCluster
     = (Inl Panic, sampleCluster\<lparr>calls := [GetVolume ''default'' ''v1'']\<rparr>)"
  using CreateVolume_Preferred_panic [of "sampleRequest\<lparr>AccessibilityRequirements := Some \<lparr>Requisite = [], Preferred = []\<rparr>\<rparr>"
      sampleController sampleCluster "sampleCluster\<lparr>calls := [GetVolume ''default'' ''v1'']\<rparr>" "\<lparr>seconds = 5\<rparr>"]
  by (simp add: sample_defs client_defs gateway_defs)

section \<open>A failed listing of the AvailableCapacity records\<close>

text \<open>
  C10. On a request that reaches the scheduler, a failed listing of the
  AvailableCapacity records makes the scheduler return none and CreateVolume fail with
  ResourceExhausted; the caller gets the same result as from a run \<open>t\<close> whose listing
  succeeds and holds no record.
\<close>

theorem CreateVolume_list_fault:
  assumes "ReqName req \<noteq> []" and "VolumeCapabilities req \<noteq> None"
    and "preferredNodeOf req = Inr node"
    and "ReadCR c (ReqName req) s = (Inl NotFound, s1)"
    and "ReadList c s1 = (Inl err, s2)"
    and "ReadCR c (ReqName req) t = (Inl NotFound, t1)"
    and "ReadList c t1 = (Inr [], t2)"
  shows "searchAvailableCapacity c node (GetRequiredBytes req) s1 = (None, s2)
       \<and> CreateVolume c ctx req s = (Inl (Status ResourceExhausted), s2)
       \<and> fst (CreateVolume c ctx req t) = fst (CreateVolume c ctx req s)"
  using assms
  by (simp add: CreateVolume_def reserveVolume_def searchAvailableCapacity_def acNodeMapping_def nodeACs_def)

theorem CreateVolume_list_fault_witness:
  "CreateVolume sampleController \<lparr>seconds = 5\<rparr> sampleRequest (sampleCluster\<lparr>faults := [False, True]\<rparr>)
     = (Inl (Status ResourceExhausted), sampleCluster\<lparr>calls := [GetVolume ''default'' ''v1'', ListAC ''default'']\<rparr>)
   \<and> fst (CreateVolume sampleController \<lparr>seconds = 5\<rparr> sampleRequest (sampleCluster\<lparr>capacities := []\<rparr>))
     = Inl (Status ResourceExhausted)"
  using CreateVolume_list_fault [of sampleRequest "[]" sampleController "sampleCluster\<lparr>faults := [False, True]\<rparr>"
      "sampleCluster\<lparr>faults := [True], calls := [GetVolume ''default'' ''v1'']\<rparr>" ServerError
      "sampleCluster\<lparr>calls := [GetVolume ''default'' ''v1'', ListAC ''default'']\<rparr>"
      "sampleCluster\<lparr>capacities := []\<rparr>"
      "sampleCluster\<lparr>capacities := [], calls := [GetVolume ''default'' ''v1'']\<rparr>"
      "sampleCluster\<lparr>capacities := [], calls := [GetVolume ''default'' ''v1'', ListAC ''default'']\<rparr>"
      "\<lparr>seconds = 5\<rparr>"]
  by (simp add: sample_defs client_defs gateway_defs preferredNodeOf_def)

section \<open>DeleteVolume when the Volume cannot be read\<close>

text \<open>
  A read is a call of the client that changes neither the records nor the agents' trace.
\<close>

lemma ReadCR_frame:
  assumes "ReadCR c name s = (r, s1)"
  shows "volumes s1 = volumes s \<and> capacities s1 = capacities s \<and> rpcs s1 = rpcs s"
  using assms
  by (auto simp: ReadCR_def client_Get_Volume_def api_call_def split: list.splits option.splits if_splits)

text \<open>
  When the read fails with an error other than NotFound, DeleteVolume returns the plain
  error of \<open>fmt.Errorf\<close>, in the state the read left.
\<close>

lemma DeleteVolume_read_error:
  assumes "VolumeId req \<noteq> []"
    and "ReadCR c (VolumeId req) s = (Inl err, s1)"
    and "err \<noteq> NotFound"
  shows "DeleteVolume c ctx req s = (Inl PlainError, s1)"
  using assms by (simp add: DeleteVolume_def)

text \<open>
  C1. DeleteVolume of \<open>v1\<close> on the sample cluster, the store failing the read: the call
  ends with a plain error, which carries no status and so is not the Internal status,
  and the store holds the records it held.
\<close>

theorem DeleteVolume_read_fault_PlainError:
  "DeleteVolume sampleController \<lparr>seconds = 5\<rparr> \<lparr>VolumeId = ''v1''\<rparr> (sampleCluster\<lparr>faults := [True]\<rparr>)
     = (Inl PlainError, sampleCluster\<lparr>calls := [GetVolume ''default'' ''v1'']\<rparr>)
   \<and> Inl PlainError \<noteq> (Inl (Status Internal) :: failure + unit)"
  by (simp add: DeleteVolume_def sample_defs client_defs gateway_defs)

text \<open>
  C6, as stated, fails for the empty volume id, which has no record and is refused with
  InvalidArgument, and for an id without a record whose read the store fails.
\<close>

theorem DeleteVolume_absent_counterexample:
  "fst (DeleteVolume sampleController \<lparr>seconds = 5\<rparr> \<lparr>VolumeId = []\<rparr> sampleCluster) = Inl (Status InvalidArgument)
   \<and> find (hasKey ''default'' []) (volumes sampleCluster) = None
   \<and> fst (DeleteVolume sampleController \<lparr>seconds = 5\<rparr> \<lparr>VolumeId = ''vX''\<rparr> (sampleCluster\<lparr>faults := [True]\<rparr>)) = Inl PlainError
   \<and> find (hasKey ''default'' ''vX'') (volumes (sampleCluster\<lparr>faults := [True]\<rparr>)) = None"
  by (simp add: DeleteVolume_def sample_defs client_defs gateway_defs)

section \<open>The scheduler's choice within a node\<close>

lemma sless_MaxInt64: "(x <s MaxInt64) = (x \<noteq> MaxInt64)" for x :: int64
proof -
  have m: "sint MaxInt64 = 2 ^ 63 - 1" by (simp add: MaxInt64_def)
  have "sint x < 2 ^ 63" using sint_lt [of x] by simp
  then have "(sint x < sint MaxInt64) = (sint x \<noteq> sint MaxInt64)" using m by linarith
  then show ?thesis by (simp add: word_sless_alt word_eq_iff_signed [where ?'a = int])
qed

text \<open>
  The loop over the records of a node, from any values of its two variables: the
  capacity it ends with is at most that of every record that fits below the starting
  capacity; a record is found when one fits, and the variables are kept when none does.
\<close>

lemma bestFit_spec:
  "bestFit r acs (f, a) = (f', a') \<Longrightarrow>
     a' \<le>s a \<and>
     (\<forall>b \<in> set acs. r \<le>s AC_Size (Spec b) \<and> AC_Size (Spec b) <s a \<longrightarrow> a' \<le>s AC_Size (Spec b)) \<and>
     ((\<exists>b \<in> set acs. r \<le>s AC_Size (Spec b) \<and> AC_Size (Spec b) <s a) \<longrightarrow>
        (\<exists>ac \<in> set acs. f' = Some ac \<and> a' = AC_Size (Spec ac) \<and> r \<le>s a' \<and> a' <s a)) \<and>
     ((\<forall>b \<in> set acs. \<not> (r \<le>s AC_Size (Spec b) \<and> AC_Size (Spec b) <s a)) \<longrightarrow> f' = f \<and> a' = a)"
proof (induction acs arbitrary: f a)
  case Nil
  then show ?case by simp
next
  case (Cons ac acs)
  show ?case
  proof (cases "AC_Size (Spec ac) <s a \<and> r \<le>s AC_Size (Spec ac)")
    case True
    with Cons.prems have "bestFit r acs (Some ac, AC_Size (Spec ac)) = (f', a')" by simp
    from Cons.IH [OF this] True show ?thesis
      unfolding word_sless_alt word_sle_eq by (auto; force)
  next
    case False
    with Cons.prems have "bestFit r acs (f, a) = (f', a')" by auto
    from Cons.IH [OF this] False show ?thesis
      unfolding word_sless_alt word_sle_eq by auto
  qed
qed

lemma map_of_appendAC:
  "map_of (appendAC ac m) n =
     (if n = AC_NodeId (Spec ac) then Some ((case map_of m n of None \<Rightarrow> [] | Some l \<Rightarrow> l) @ [ac])
      else map_of m n)"
  by (induction m) auto

lemma nodeACs_foldl:
  "nodeACs (foldl (\<lambda>m ac. appendAC ac m) m acs) n
     = nodeACs m n @ filter (\<lambda>a. AC_NodeId (Spec a) = n) acs"
proof (induction acs arbitrary: m)
  case Nil
  then show ?case by simp
next
  case (Cons a acs)
  have "nodeACs (appendAC a m) n = nodeACs m n @ (if AC_NodeId (Spec a) = n then [a] else [])"
    by (auto simp: nodeACs_def map_of_appendAC)
  then show ?case using Cons.IH [of "appendAC a m"] by simp
qed

text \<open>The entry of a node in the map holds the listed records of that node, in order.\<close>

lemma nodeACs_acNodeMapping:
  "nodeACs (acNodeMapping acs) n = filter (\<lambda>a. AC_NodeId (Spec a) = n) acs"
  by (simp add: acNodeMapping_def nodeACs_foldl) (simp add: nodeACs_def)

text \<open>
  Best fit, as far as the code has it. When the listing succeeds, the scheduler works on
  one node, the preferred one if the request names it; among the listed records of that
  node that hold the required bytes and whose size is not \<open>MaxInt64\<close>, it returns one of
  least size, and none when there is no such record.
\<close>

lemma searchAvailableCapacity_best_fit:
  assumes "ReadList c s = (Inr items, s1)"
  shows "\<exists>node. (preferredNode \<noteq> [] \<longrightarrow> node = preferredNode) \<and>
     (let cands = filter (\<lambda>a. AC_NodeId (Spec a) = node \<and> r \<le>s AC_Size (Spec a) \<and> AC_Size (Spec a) \<noteq> MaxInt64) items
      in snd (searchAvailableCapacity c preferredNode r s) = s1
         \<and> (cands = [] \<longrightarrow> fst (searchAvailableCapacity c preferredNode r s) = None)
         \<and> (cands \<noteq> [] \<longrightarrow>
              (\<exists>ac \<in> set cands. fst (searchAvailableCapacity c preferredNode r s) = Some ac
                 \<and> (\<forall>b \<in> set cands. AC_Size (Spec ac) \<le>s AC_Size (Spec b)))))"
proof -
  define node where "node = (if preferredNode = [] then fst (mostACs (rotate (rangeSeed s1) (acNodeMapping items)) (preferredNode, 0)) else preferredNode)"
  define on where "on = filter (\<lambda>a. AC_NodeId (Spec a) = node) items"
  obtain f' a' where bf: "bestFit r on (None, MaxInt64) = (f', a')" by (cases "bestFit r on (None, MaxInt64)")
  have res: "searchAvailableCapacity c preferredNode r s = (f', s1)"
    using assms bf by (simp add: searchAvailableCapacity_def node_def on_def nodeACs_acNodeMapping Let_def)
  note sp = bestFit_spec [OF bf, unfolded sless_MaxInt64]
  let ?cands = "filter (\<lambda>a. AC_NodeId (Spec a) = node \<and> r \<le>s AC_Size (Spec a) \<and> AC_Size (Spec a) \<noteq> MaxInt64) items"
  have empty: "?cands = [] \<Longrightarrow> f' = None"
    using sp by (auto simp: on_def filter_empty_conv)
  have some: "?cands \<noteq> [] \<Longrightarrow> \<exists>ac \<in> set ?cands. f' = Some ac \<and> (\<forall>b \<in> set ?cands. AC_Size (Spec ac) \<le>s AC_Size (Spec b))"
  proof -
    assume "?cands \<noteq> []"
    then obtain b where b: "b \<in> set on" "r \<le>s AC_Size (Spec b)" "AC_Size (Spec b) \<noteq> MaxInt64"
      by (auto simp: on_def filter_empty_conv)
    with sp obtain ac where ac: "ac \<in> set on" "f' = Some ac" "a' = AC_Size (Spec ac)" "r \<le>s a'" "a' \<noteq> MaxInt64"
      by blast
    have "\<forall>b \<in> set ?cands. AC_Size (Spec ac) \<le>s AC_Size (Spec b)"
      using sp ac by (auto simp: on_def)
    with ac show ?thesis by (auto simp: on_def)
  qed
  show ?thesis
    apply (rule exI [of _ node])
    using res empty some by (auto simp: node_def Let_def)
qed

text \<open>
  C2. One record on \<open>node-A\<close>, of size \<open>MaxInt64\<close>, and a request for 40 bytes on that
  node: the record holds the required bytes, yet the scheduler returns none, since no
  size is below the capacity the loop starts from, and CreateVolume fails with
  ResourceExhausted.
\<close>

theorem searchAvailableCapacity_MaxInt64_record:
  "fst (searchAvailableCapacity sampleController ''node-A'' 40
          (sampleCluster\<lparr>capacities := [sampleAC ''node-A'' ''SN1'' MaxInt64]\<rparr>)) = None
   \<and> AC_NodeId (Spec (sampleAC ''node-A'' ''SN1'' MaxInt64)) = ''node-A''
   \<and> 40 \<le>s AC_Size (Spec (sampleAC ''node-A'' ''SN1'' MaxInt64))
   \<and> fst (CreateVolume sampleController \<lparr>seconds = 5\<rparr> sampleRequest
          (sampleCluster\<lparr>capacities := [sampleAC ''node-A'' ''SN1'' MaxInt64]\<rparr>)) = Inl (Status ResourceExhausted)"
  by (simp add: CreateVolume_def reserveVolume_def preferredNodeOf_def searchAvailableCapacity_def
      acNodeMapping_def nodeACs_def GetRequiredBytes_def sample_defs client_defs gateway_defs
      MaxInt64_def word_sle_eq)

section \<open>Evaluation of the loops\<close>

lemma readAttempts_pos:
  "0 < n \<Longrightarrow> readAttempts n c i v s =
     (case ReadCR c i s of (Inr found, s1) \<Rightarrow> (Some found, s1) | (Inl err, s1) \<Rightarrow> readAttempts (n - 1) c i v s1)"
  by (cases n) (auto split: prod.splits sum.splits option.splits)

lemma updateAttempts_pos:
  "0 < n \<Longrightarrow> updateAttempts n c v s =
     (case UpdateCR c v s of (Inr u, s1) \<Rightarrow> (Inr (), s1) | (Inl err, s1) \<Rightarrow> updateAttempts (n - 1) c v s1)"
  by (cases n) (auto split: prod.splits sum.splits option.splits)

lemma waitLoop_pos:
  "0 < n \<Longrightarrow> waitLoop n c i sts s =
     (case ReadCR c i s of
        (Inl err, s1) \<Rightarrow> waitLoop (n - 1) c i sts s1
      | (Inr v, s1) \<Rightarrow>
          (case find (\<lambda>st. V_Status (Spec v) = st) sts of
             Some st \<Rightarrow> ((True, Some st), s1)
           | None \<Rightarrow> waitLoop (n - 1) c i sts s1))"
  by (cases n) (auto split: prod.splits sum.splits option.splits)

lemmas flow_defs =
  CreateVolume_def reserveVolume_def preferredNodeOf_def searchAvailableCapacity_def
  acNodeMapping_def nodeACs_def GetRequiredBytes_def createLocalVolume_def changeVolumeStatus_def
  changeStatus_def awaitCreated_def waitVCRStatus_def newVolumeCR_def DeleteVolume_def WithTimeout_def
  CreateLocalVolumeRequestTimeout_def ToLower_def toLowerChar_def StorageClass_ANY_def
  VolumeStatusAnnotationKey_def NodeIDTopologyKey_def MaxInt64_def
  readAttempts_pos updateAttempts_pos waitLoop_pos Let_def word_sless_alt word_sle_eq

section \<open>The status and its annotation\<close>

text \<open>The Volume that CreateVolume builds and the Volume that changeVolumeStatus writes.\<close>

lemma synced_changeStatus: "synced (changeStatus st v)"
  by (cases v) (simp_all add: synced_def changeStatus_def)

lemma synced_newVolumeCR: "synced (newVolumeCR n ac)"
  by (simp add: synced_def newVolumeCR_def)

text \<open>Each operation of the gateway and of the controller keeps the writes in sync.\<close>

lemma ReadCR_writesInSync: "ReadCR c n s = (r, s1) \<Longrightarrow> writesInSync s \<Longrightarrow> writesInSync s1"
  by (auto simp: ReadCR_def client_Get_Volume_def api_call_def writesInSync_def split: list.splits option.splits if_splits)

lemma ReadList_writesInSync: "ReadList c s = (r, s1) \<Longrightarrow> writesInSync s \<Longrightarrow> writesInSync s1"
  by (auto simp: ReadList_def client_List_AC_def api_call_def writesInSync_def split: list.splits option.splits if_splits)

lemma CreateCR_Volume_writesInSync:
  "CreateCR_Volume c obj n s = (r, s1) \<Longrightarrow> synced obj \<Longrightarrow> writesInSync s \<Longrightarrow> writesInSync s1"
  by (auto simp: CreateCR_Volume_def client_Get_Volume_def client_Create_Volume_def api_call_def writesInSync_def
      split: list.splits option.splits if_splits prod.splits sum.splits)

lemma CreateCR_AC_writesInSync:
  "CreateCR_AC c obj n s = (r, s1) \<Longrightarrow> writesInSync s \<Longrightarrow> writesInSync s1"
  by (auto simp: CreateCR_AC_def client_Get_AC_def client_Create_AC_def api_call_def writesInSync_def
      split: list.splits option.splits if_splits prod.splits sum.splits)

lemma UpdateCR_writesInSync:
  "UpdateCR c obj s = (r, s1) \<Longrightarrow> synced obj \<Longrightarrow> writesInSync s \<Longrightarrow> writesInSync s1"
  by (auto simp: UpdateCR_def client_Update_Volume_def api_call_def writesInSync_def list_all_iff
      split: list.splits option.splits if_splits prod.splits sum.splits)

lemma DeleteCR_Volume_writesInSync:
  "DeleteCR_Volume c obj s = (r, s1) \<Longrightarrow> writesInSync s \<Longrightarrow> writesInSync s1"
  by (auto simp: DeleteCR_Volume_def client_Delete_Volume_def api_call_def writesInSync_def list_all_iff
      split: list.splits option.splits if_splits prod.splits sum.splits)

lemma DeleteCR_AC_writesInSync:
  "DeleteCR_AC c obj s = (r, s1) \<Longrightarrow> writesInSync s \<Longrightarrow> writesInSync s1"
  by (auto simp: DeleteCR_AC_def client_Delete_AC_def api_call_def writesInSync_def list_all_iff
      split: list.splits option.splits if_splits prod.splits sum.splits)

lemma readAttempts_writesInSync:
  "readAttempts n c i v s = (r, s1) \<Longrightarrow> writesInSync s \<Longrightarrow> writesInSync s1"
proof (induction n arbitrary: s)
  case 0
  then show ?case by simp
next
  case (Suc n)
  obtain r0 s0 where rd: "ReadCR c i s = (r0, s0)" by (cases "ReadCR c i s")
  with Suc.prems have s0: "writesInSync s0" by (auto dest: ReadCR_writesInSync)
  show ?case
  proof (cases r0)
    case (Inl e)
    with Suc.prems rd have "readAttempts n c i v s0 = (r, s1)" by simp
    then show ?thesis using Suc.IH s0 by blast
  next
    case (Inr found)
    with Suc.prems rd s0 show ?thesis by simp
  qed
qed

lemma updateAttempts_writesInSync:
  "updateAttempts n c v s = (r, s1) \<Longrightarrow> synced v \<Longrightarrow> writesInSync s \<Longrightarrow> writesInSync s1"
proof (induction n arbitrary: s)
  case 0
  then show ?case by simp
next
  case (Suc n)
  obtain r0 s0 where up: "UpdateCR c v s = (r0, s0)" by (cases "UpdateCR c v s")
  with Suc.prems have s0: "writesInSync s0" by (auto dest: UpdateCR_writesInSync)
  show ?case
  proof (cases r0)
    case (Inl e)
    with Suc.prems up have "updateAttempts n c v s0 = (r, s1)" by simp
    then show ?thesis using Suc.IH Suc.prems(2) s0 by blast
  next
    case (Inr u)
    with Suc.prems up s0 show ?thesis by simp
  qed
qed

lemma changeVolumeStatus_writesInSync:
  assumes "changeVolumeStatus c i st s = (r, s1)" and "writesInSync s"
  shows "writesInSync s1"
proof -
  obtain v s0 where rd: "readAttempts 10 c i None s = (v, s0)" by (cases "readAttempts 10 c i None s")
  with assms(1) have up: "updateAttempts 10 c (changeStatus st v) s0 = (r, s1)"
    by (simp add: changeVolumeStatus_def)
  from readAttempts_writesInSync [OF rd assms(2)] updateAttempts_writesInSync [OF up synced_changeStatus]
  show ?thesis by blast
qed

lemma waitLoop_writesInSync:
  "waitLoop n c i sts s = (r, s1) \<Longrightarrow> writesInSync s \<Longrightarrow> writesInSync s1"
proof (induction n arbitrary: s)
  case 0
  then show ?case by simp
next
  case (Suc n)
  obtain r0 s0 where rd: "ReadCR c i s = (r0, s0)" by (cases "ReadCR c i s")
  with Suc.prems have s0: "writesInSync s0" by (auto dest: ReadCR_writesInSync)
  from Suc.prems rd have "(r, s1) = ((fst r, snd r), s0) \<or> waitLoop n c i sts s0 = (r, s1)"
    by (auto split: sum.splits option.splits)
  then show ?case using Suc.IH s0 by auto
qed

lemma awaitCreated_writesInSync:
  "awaitCreated c ctx req v s = (r, s1) \<Longrightarrow> writesInSync s \<Longrightarrow> writesInSync s1"
  by (auto simp: awaitCreated_def waitVCRStatus_def split: prod.splits if_splits dest: waitLoop_writesInSync)

lemma rpcs_update_writesInSync: "writesInSync (s\<lparr>rpcs := x\<rparr>) = writesInSync s"
  by (simp add: writesInSync_def)

lemma createLocalVolume_writesInSync:
  "createLocalVolume c req ac s = (r, s1) \<Longrightarrow> writesInSync s \<Longrightarrow> writesInSync s1"
  by (auto simp: createLocalVolume_def Let_def rpcs_update_writesInSync split: option.splits prod.splits
      dest!: changeVolumeStatus_writesInSync)

lemma searchAvailableCapacity_writesInSync:
  "searchAvailableCapacity c n b s = (r, s1) \<Longrightarrow> writesInSync s \<Longrightarrow> writesInSync s1"
  by (auto simp: searchAvailableCapacity_def Let_def split: prod.splits sum.splits dest: ReadList_writesInSync)

lemma reserveVolume_writesInSync:
  "reserveVolume c req s = (r, s1) \<Longrightarrow> writesInSync s \<Longrightarrow> writesInSync s1"
  by (auto simp: reserveVolume_def split: prod.splits sum.splits option.splits
      dest!: searchAvailableCapacity_writesInSync dest: CreateCR_Volume_writesInSync [OF _ synced_newVolumeCR] DeleteCR_AC_writesInSync)

lemma CreateVolume_writesInSync:
  "CreateVolume c ctx req s = (r, s1) \<Longrightarrow> writesInSync s \<Longrightarrow> writesInSync s1"
  by (auto simp: CreateVolume_def split: if_splits prod.splits sum.splits
      dest!: ReadCR_writesInSync dest: reserveVolume_writesInSync createLocalVolume_writesInSync awaitCreated_writesInSync)

lemma DeleteVolume_writesInSync:
  "DeleteVolume c ctx req s = (r, s1) \<Longrightarrow> writesInSync s \<Longrightarrow> writesInSync s1"
  by (auto simp: DeleteVolume_def Let_def rpcs_update_writesInSync split: if_splits prod.splits sum.splits option.splits rpc_result.splits
      dest!: ReadCR_writesInSync dest: DeleteCR_Volume_writesInSync CreateCR_AC_writesInSync)

text \<open>Each operation of the gateway and of the controller keeps the records in sync.\<close>

lemma ReadCR_recordsInSync: "ReadCR c n s = (r, s1) \<Longrightarrow> recordsInSync s \<Longrightarrow> recordsInSync s1"
  by (auto simp: ReadCR_def client_Get_Volume_def api_call_def recordsInSync_def split: list.splits option.splits if_splits)

lemma ReadList_recordsInSync: "ReadList c s = (r, s1) \<Longrightarrow> recordsInSync s \<Longrightarrow> recordsInSync s1"
  by (auto simp: ReadList_def client_List_AC_def api_call_def recordsInSync_def split: list.splits option.splits if_splits)

lemma CreateCR_Volume_recordsInSync:
  "CreateCR_Volume c obj n s = (r, s1) \<Longrightarrow> synced obj \<Longrightarrow> recordsInSync s \<Longrightarrow> recordsInSync s1"
  by (auto simp: CreateCR_Volume_def client_Get_Volume_def client_Create_Volume_def api_call_def recordsInSync_def
      split: list.splits option.splits if_splits prod.splits sum.splits)

lemma CreateCR_AC_recordsInSync:
  "CreateCR_AC c obj n s = (r, s1) \<Longrightarrow> recordsInSync s \<Longrightarrow> recordsInSync s1"
  by (auto simp: CreateCR_AC_def client_Get_AC_def client_Create_AC_def api_call_def recordsInSync_def
      split: list.splits option.splits if_splits prod.splits sum.splits)

lemma UpdateCR_recordsInSync:
  "UpdateCR c obj s = (r, s1) \<Longrightarrow> synced obj \<Longrightarrow> recordsInSync s \<Longrightarrow> recordsInSync s1"
  by (auto simp: UpdateCR_def client_Update_Volume_def api_call_def recordsInSync_def list_all_iff
      split: list.splits option.splits if_splits prod.splits sum.splits)

lemma DeleteCR_Volume_recordsInSync:
  "DeleteCR_Volume c obj s = (r, s1) \<Longrightarrow> recordsInSync s \<Longrightarrow> recordsInSync s1"
  by (auto simp: DeleteCR_Volume_def client_Delete_Volume_def api_call_def recordsInSync_def list_all_iff
      split: list.splits option.splits if_splits prod.splits sum.splits)

lemma DeleteCR_AC_recordsInSync:
  "DeleteCR_AC c obj s = (r, s1) \<Longrightarrow> recordsInSync s \<Longrightarrow> recordsInSync s1"
  by (auto simp: DeleteCR_AC_def client_Delete_AC_def api_call_def recordsInSync_def list_all_iff
      split: list.splits option.splits if_splits prod.splits sum.splits)

lemma readAttempts_recordsInSync:
  "readAttempts n c i v s = (r, s1) \<Longrightarrow> recordsInSync s \<Longrightarrow> recordsInSync s1"
proof (induction n arbitrary: s)
  case 0
  then show ?case by simp
next
  case (Suc n)
  obtain r0 s0 where rd: "ReadCR c i s = (r0, s0)" by (cases "ReadCR c i s")
  with Suc.prems have s0: "recordsInSync s0" by (auto dest: ReadCR_recordsInSync)
  show ?case
  proof (cases r0)
    case (Inl e)
    with Suc.prems rd have "readAttempts n c i v s0 = (r, s1)" by simp
    then show ?thesis using Suc.IH s0 by blast
  next
    case (Inr found)
    with Suc.prems rd s0 show ?thesis by simp
  qed
qed

lemma updateAttempts_recordsInSync:
  "updateAttempts n c v s = (r, s1) \<Longrightarrow> synced v \<Longrightarrow> recordsInSync s \<Longrightarrow> recordsInSync s1"
proof (induction n arbitrary: s)
  case 0
  then show ?case by simp
next
  case (Suc n)
  obtain r0 s0 where up: "UpdateCR c v s = (r0, s0)" by (cases "UpdateCR c v s")
  with Suc.prems have s0: "recordsInSync s0" by (auto dest: UpdateCR_recordsInSync)
  show ?case
  proof (cases r0)
    case (Inl e)
    with Suc.prems up have "updateAttempts n c v s0 = (r, s1)" by simp
    then show ?thesis using Suc.IH Suc.prems(2) s0 by blast
  next
    case (Inr u)
    with Suc.prems up s0 show ?thesis by simp
  qed
qed

lemma changeVolumeStatus_recordsInSync:
  assumes "changeVolumeStatus c i st s = (r, s1)" and "recordsInSync s"
  shows "recordsInSync s1"
proof -
  obtain v s0 where rd: "readAttempts 10 c i None s = (v, s0)" by (cases "readAttempts 10 c i None s")
  with assms(1) have up: "updateAttempts 10 c (changeStatus st v) s0 = (r, s1)"
    by (simp add: changeVolumeStatus_def)
  from readAttempts_recordsInSync [OF rd assms(2)] updateAttempts_recordsInSync [OF up synced_changeStatus]
  show ?thesis by blast
qed

lemma waitLoop_recordsInSync:
  "waitLoop n c i sts s = (r, s1) \<Longrightarrow> recordsInSync s \<Longrightarrow> recordsInSync s1"
proof (induction n arbitrary: s)
  case 0
  then show ?case by simp
next
  case (Suc n)
  obtain r0 s0 where rd: "ReadCR c i s = (r0, s0)" by (cases "ReadCR c i s")
  with Suc.prems have s0: "recordsInSync s0" by (auto dest: ReadCR_recordsInSync)
  from Suc.prems rd have "(r, s1) = ((fst r, snd r), s0) \<or> waitLoop n c i sts s0 = (r, s1)"
    by (auto split: sum.splits option.splits)
  then show ?case using Suc.IH s0 by auto
qed

lemma awaitCreated_recordsInSync:
  "awaitCreated c ctx req v s = (r, s1) \<Longrightarrow> recordsInSync s \<Longrightarrow> recordsInSync s1"
  by (auto simp: awaitCreated_def waitVCRStatus_def split: prod.splits if_splits dest: waitLoop_recordsInSync)

lemma rpcs_update_recordsInSync: "recordsInSync (s\<lparr>rpcs := x\<rparr>) = recordsInSync s"
  by (simp add: recordsInSync_def)

lemma createLocalVolume_recordsInSync:
  "createLocalVolume c req ac s = (r, s1) \<Longrightarrow> recordsInSync s \<Longrightarrow> recordsInSync s1"
  by (auto simp: createLocalVolume_def Let_def rpcs_update_recordsInSync split: option.splits prod.splits
      dest!: changeVolumeStatus_recordsInSync)

lemma searchAvailableCapacity_recordsInSync:
  "searchAvailableCapacity c n b s = (r, s1) \<Longrightarrow> recordsInSync s \<Longrightarrow> recordsInSync s1"
  by (auto simp: searchAvailableCapacity_def Let_def split: prod.splits sum.splits dest: ReadList_recordsInSync)

lemma reserveVolume_recordsInSync:
  "reserveVolume c req s = (r, s1) \<Longrightarrow> recordsInSync s \<Longrightarrow> recordsInSync s1"
  by (auto simp: reserveVolume_def split: prod.splits sum.splits option.splits
      dest!: searchAvailableCapacity_recordsInSync dest: CreateCR_Volume_recordsInSync [OF _ synced_newVolumeCR] DeleteCR_AC_recordsInSync)

lemma CreateVolume_recordsInSync:
  "CreateVolume c ctx req s = (r, s1) \<Longrightarrow> recordsInSync s \<Longrightarrow> recordsInSync s1"
  by (auto simp: CreateVolume_def split: if_splits prod.splits sum.splits
      dest!: ReadCR_recordsInSync dest: reserveVolume_recordsInSync createLocalVolume_recordsInSync awaitCreated_recordsInSync)

lemma DeleteVolume_recordsInSync:
  "DeleteVolume c ctx req s = (r, s1) \<Longrightarrow> recordsInSync s \<Longrightarrow> recordsInSync s1"
  by (auto simp: DeleteVolume_def Let_def rpcs_update_recordsInSync split: if_splits prod.splits sum.splits option.splits rpc_result.splits
      dest!: ReadCR_recordsInSync dest: DeleteCR_Volume_recordsInSync CreateCR_AC_recordsInSync)

text \<open>
  C8. CreateVolume, changeVolumeStatus and DeleteVolume keep the writes in sync, whatever
  the store holds and whichever calls it fails: every Volume the store is asked to create
  or update carries as its status annotation the text of its status. They keep the
  records in sync as well: when every Volume record of the store is in sync before, every
  one is after. The only Volumes written are the one CreateVolume builds, annotation and
  status both Creating, and those changeVolumeStatus writes, both set from the new status.
\<close>

theorem status_annotation_inSync:
  assumes "writesInSync s"
  shows "writesInSync (snd (CreateVolume c ctx req s))
       \<and> writesInSync (snd (changeVolumeStatus c volumeID newStatus s))
       \<and> writesInSync (snd (DeleteVolume c ctx' dreq s))
       \<and> (recordsInSync s \<longrightarrow>
             recordsInSync (snd (CreateVolume c ctx req s))
           \<and> recordsInSync (snd (changeVolumeStatus c volumeID newStatus s))
           \<and> recordsInSync (snd (DeleteVolume c ctx' dreq s)))"
proof -
  have w: "writesInSync (snd (CreateVolume c ctx req s))"
    "writesInSync (snd (changeVolumeStatus c volumeID newStatus s))"
    "writesInSync (snd (DeleteVolume c ctx' dreq s))"
    using assms CreateVolume_writesInSync [of c ctx req s] changeVolumeStatus_writesInSync [of c volumeID newStatus s]
      DeleteVolume_writesInSync [of c ctx' dreq s]
    by (metis prod.collapse)+
  have r: "recordsInSync (snd (CreateVolume c ctx req s))"
    "recordsInSync (snd (changeVolumeStatus c volumeID newStatus s))"
    "recordsInSync (snd (DeleteVolume c ctx' dreq s))" if "recordsInSync s"
    using that CreateVolume_recordsInSync [of c ctx req s] changeVolumeStatus_recordsInSync [of c volumeID newStatus s]
      DeleteVolume_recordsInSync [of c ctx' dreq s]
    by (metis prod.collapse)+
  from w r show ?thesis by blast
qed

theorem status_annotation_inSync_witness:
  "writesInSync sampleCluster \<and> recordsInSync sampleCluster
   \<and> writesInSync (snd (CreateVolume sampleController \<lparr>seconds = 1\<rparr> sampleRequest sampleCluster))
   \<and> recordsInSync (snd (CreateVolume sampleController \<lparr>seconds = 1\<rparr> sampleRequest sampleCluster))
   \<and> map (\<lambda>v. (V_Status (Spec v), Annotations (ObjectMeta v) VolumeStatusAnnotationKey))
        (volumes (snd (CreateVolume sampleController \<lparr>seconds = 1\<rparr> sampleRequest sampleCluster)))
      = [(Created, Some ''Created'')]"
proof -
  have h: "writesInSync sampleCluster" "recordsInSync sampleCluster"
    by (simp_all add: writesInSync_def recordsInSync_def sampleCluster_def)
  have v: "map (\<lambda>v. (V_Status (Spec v), Annotations (ObjectMeta v) VolumeStatusAnnotationKey))
        (volumes (snd (CreateVolume sampleController \<lparr>seconds = 1\<rparr> sampleRequest sampleCluster)))
      = [(Created, Some ''Created'')]"
    by (simp add: flow_defs sample_defs client_defs gateway_defs)
  from h v status_annotation_inSync [OF h(1), of sampleController "\<lparr>seconds = 1\<rparr>" sampleRequest]
  show ?thesis by simp
qed

section \<open>The call to the agent and the status it leads to\<close>

lemma UpdateCR_frame:
  "UpdateCR c obj s = (r, s1) \<Longrightarrow> capacities s1 = capacities s \<and> rpcs s1 = rpcs s"
  by (auto simp: UpdateCR_def client_Update_Volume_def api_call_def split: list.splits if_splits)

lemma readAttempts_frame:
  "readAttempts n c i v s = (r, s1) \<Longrightarrow>
     volumes s1 = volumes s \<and> capacities s1 = capacities s \<and> rpcs s1 = rpcs s"
proof (induction n arbitrary: s)
  case 0
  then show ?case by simp
next
  case (Suc n)
  obtain r0 s0 where rd: "ReadCR c i s = (r0, s0)" by (cases "ReadCR c i s")
  note fr = ReadCR_frame [OF rd]
  show ?case
  proof (cases r0)
    case (Inl e)
    with Suc.prems rd have "readAttempts n c i v s0 = (r, s1)" by simp
    from Suc.IH [OF this] fr show ?thesis by simp
  next
    case (Inr found)
    with Suc.prems rd fr show ?thesis by auto
  qed
qed

lemma updateAttempts_frame:
  "updateAttempts n c v s = (r, s1) \<Longrightarrow> capacities s1 = capacities s \<and> rpcs s1 = rpcs s"
proof (induction n arbitrary: s)
  case 0
  then show ?case by simp
next
  case (Suc n)
  obtain r0 s0 where up: "UpdateCR c v s = (r0, s0)" by (cases "UpdateCR c v s")
  note fr = UpdateCR_frame [OF up]
  show ?case
  proof (cases r0)
    case (Inl e)
    with Suc.prems up have "updateAttempts n c v s0 = (r, s1)" by simp
    from Suc.IH [OF this] fr show ?thesis by simp
  next
    case (Inr u)
    with Suc.prems up fr show ?thesis by auto
  qed
qed

lemma changeVolumeStatus_frame:
  assumes "changeVolumeStatus c i st s = (r, s1)"
  shows "capacities s1 = capacities s \<and> rpcs s1 = rpcs s"
proof -
  obtain v s0 where rd: "readAttempts 10 c i None s = (v, s0)" by (cases "readAttempts 10 c i None s")
  with assms have up: "updateAttempts 10 c (changeStatus st v) s0 = (r, s1)"
    by (simp add: changeVolumeStatus_def)
  from readAttempts_frame [OF rd] updateAttempts_frame [OF up] show ?thesis by simp
qed

lemma ReadCR_answered:
  assumes "faults s = []"
  shows "ReadCR c n s =
     ((case find (hasKey (namespace c) n) (volumes s) of None \<Rightarrow> Inl NotFound | Some v \<Rightarrow> Inr v),
      s\<lparr>calls := calls s @ [GetVolume (namespace c) n]\<rparr>)"
  using assms by (simp add: ReadCR_def client_Get_Volume_def api_call_def split: option.splits)

lemma find_replace:
  assumes "find P xs = Some v" and "P obj"
  shows "find P (map (\<lambda>w. if P w then obj else w) xs) = Some obj"
  using assms by (induction xs) (auto split: if_splits)

lemma sameKey_changeStatus:
  "hasKey ns n v \<Longrightarrow> sameKey (changeStatus st (Some v)) w = hasKey ns n w"
  by (auto simp: sameKey_def hasKey_def changeStatus_def)

text \<open>
  The retries of \<open>changeVolumeStatus\<close>: a read succeeds within \<open>n\<close> attempts when the
  store fails fewer than \<open>n\<close> calls in a row, and so does an update.
\<close>

lemma refusals_Nil: "refusals [] = 0" and refusals_False: "refusals (False # fs) = 0"
  and refusals_True: "refusals (True # fs) = Suc (refusals fs)"
  by (simp_all add: refusals_def)

lemma afterAnswer_Nil: "afterAnswer [] = []" and afterAnswer_False: "afterAnswer (False # fs) = fs"
  and afterAnswer_True: "afterAnswer (True # fs) = afterAnswer fs"
  by (simp_all add: afterAnswer_def refusals_def)

lemma readAttempts_retry:
  assumes "find (hasKey (namespace c) i) (volumes s) = Some v" and "refusals (faults s) < n"
  shows "\<exists>s1. readAttempts n c i vin s = (Some v, s1) \<and> volumes s1 = volumes s
           \<and> faults s1 = afterAnswer (faults s)"
  using assms
proof (induction n arbitrary: s)
  case 0
  then show ?case by simp
next
  case (Suc n)
  show ?case
  proof (cases "faults s")
    case Nil
    with Suc.prems(1) show ?thesis
      by (simp add: ReadCR_def client_Get_Volume_def api_call_def afterAnswer_Nil)
  next
    case (Cons f fs)
    show ?thesis
    proof (cases f)
      case False
      with Cons Suc.prems(1) show ?thesis
        by (simp add: ReadCR_def client_Get_Volume_def api_call_def afterAnswer_False)
    next
      case True
      define s0 where "s0 = s\<lparr>faults := fs, calls := calls s @ [GetVolume (namespace c) i]\<rparr>"
      have rd: "ReadCR c i s = (Inl ServerError, s0)"
        using Cons True by (simp add: ReadCR_def client_Get_Volume_def api_call_def s0_def)
      have "find (hasKey (namespace c) i) (volumes s0) = Some v" and "refusals (faults s0) < n"
        using Suc.prems Cons True by (simp_all add: s0_def refusals_True)
      from Suc.IH [OF this] obtain s1 where "readAttempts n c i vin s0 = (Some v, s1)"
        and "volumes s1 = volumes s0" and "faults s1 = afterAnswer (faults s0)" by blast
      with rd Cons True show ?thesis by (simp add: s0_def afterAnswer_True)
    qed
  qed
qed

lemma updateAttempts_retry:
  assumes "\<exists>w \<in> set (volumes s). sameKey obj w" and "refusals (faults s) < n"
  shows "\<exists>s1. updateAttempts n c obj s = (Inr (), s1)
           \<and> volumes s1 = map (\<lambda>w. if sameKey obj w then obj else w) (volumes s)"
  using assms
proof (induction n arbitrary: s)
  case 0
  then show ?case by simp
next
  case (Suc n)
  show ?case
  proof (cases "faults s")
    case Nil
    with Suc.prems(1) show ?thesis
      by (simp add: UpdateCR_def client_Update_Volume_def api_call_def)
  next
    case (Cons f fs)
    show ?thesis
    proof (cases f)
      case False
      with Cons Suc.prems(1) show ?thesis
        by (simp add: UpdateCR_def client_Update_Volume_def api_call_def)
    next
      case True
      define s0 where "s0 = s\<lparr>faults := fs, calls := calls s @ [UpdateVolumeObj obj]\<rparr>"
      have up: "UpdateCR c obj s = (Inl ServerError, s0)"
        using Cons True by (simp add: UpdateCR_def client_Update_Volume_def api_call_def s0_def)
      have "\<exists>w \<in> set (volumes s0). sameKey obj w" and "refusals (faults s0) < n"
        using Suc.prems Cons True by (simp_all add: s0_def refusals_True)
      from Suc.IH [OF this] obtain s1 where "updateAttempts n c obj s0 = (Inr (), s1)"
        and "volumes s1 = map (\<lambda>w. if sameKey obj w then obj else w) (volumes s0)" by blast
      with up show ?thesis by (simp add: s0_def)
    qed
  qed
qed

lemma changeVolumeStatus_persists:
  assumes f: "find (hasKey (namespace c) i) (volumes s) = Some v"
    and r1: "refusals (faults s) < 10" and r2: "refusals (afterAnswer (faults s)) < 10"
  shows "\<exists>s1. changeVolumeStatus c i st s = (Inr (), s1)
           \<and> find (hasKey (namespace c) i) (volumes s1) = Some (changeStatus st (Some v))"
proof -
  let ?obj = "changeStatus st (Some v)"
  from f have hk: "hasKey (namespace c) i v" and mem: "v \<in> set (volumes s)"
    by (auto simp: find_Some_iff)
  from readAttempts_retry [OF f r1, of None] obtain s0
    where rd: "readAttempts 10 c i None s = (Some v, s0)" and v0: "volumes s0 = volumes s"
      and f0: "faults s0 = afterAnswer (faults s)" by blast
  have ex: "\<exists>w \<in> set (volumes s0). sameKey ?obj w"
    using hk mem v0 by (auto simp: sameKey_changeStatus [OF hk])
  from updateAttempts_retry [OF ex, of 10 c] r2 f0 obtain s1
    where up: "updateAttempts 10 c ?obj s0 = (Inr (), s1)"
      and v1: "volumes s1 = map (\<lambda>w. if sameKey ?obj w then ?obj else w) (volumes s0)" by auto
  have hk': "hasKey (namespace c) i ?obj" using hk by (simp add: hasKey_def changeStatus_def)
  have "volumes s1 = map (\<lambda>w. if hasKey (namespace c) i w then ?obj else w) (volumes s)"
    using v1 v0 by (simp add: sameKey_changeStatus [OF hk])
  then have "find (hasKey (namespace c) i) (volumes s1) = Some ?obj"
    using find_replace [OF f hk'] by simp
  with rd up show ?thesis by (simp add: changeVolumeStatus_def)
qed

text \<open>
  C4, amended. When the node of the reserved AvailableCapacity has an agent client,
  \<open>createLocalVolume\<close> makes one call to it, with the request's name, its required
  bytes, the storage class \<open>hdd\<close> and the location of the AvailableCapacity, under a
  timeout of 300 seconds; it hands \<open>changeVolumeStatus\<close> the status Created when the
  agent replies and FailedToCreate on an error or on the deadline, and ends in the state
  \<open>changeVolumeStatus\<close> leaves. That status is persisted within the retries: when the
  Volume is in the controller's namespace and the store fails fewer than ten reads in a
  row and then fewer than ten updates in a row, the record afterwards has that status,
  its text as annotation, and the reservation it had.
\<close>

theorem createLocalVolume_agent_call:
  assumes "communicators c (AC_NodeId (Spec ac)) = Some mgr"
  shows "let clvReq = \<lparr>PvcUUID = ReqName req, Capacity = GetRequiredBytes req, Sc = ''hdd'',
                       Location = AC_Location (Spec ac)\<rparr>;
             call = CreateLocalVolumeCall (AC_NodeId (Spec ac)) 300 clvReq;
             outcome = CreateLocalVolume mgr 300 clvReq;
             newStatus = (if outcome = Reply () then Created else FailedToCreate);
             s' = snd (createLocalVolume c req ac s)
         in createLocalVolume c req ac s
              = (Inr (), snd (changeVolumeStatus c (ReqName req) newStatus (s\<lparr>rpcs := rpcs s @ [call]\<rparr>)))
          \<and> rpcs s' = rpcs s @ [call]
          \<and> (newStatus = FailedToCreate) = (outcome = RpcError \<or> outcome = DeadlineExceeded)
          \<and> (\<forall>v. find (hasKey (namespace c) (ReqName req)) (volumes s) = Some v
                  \<and> refusals (faults s) < 10 \<and> refusals (afterAnswer (faults s)) < 10
                \<longrightarrow> (\<exists>w. find (hasKey (namespace c) (ReqName req)) (volumes s') = Some w
                       \<and> V_Status (Spec w) = newStatus
                       \<and> Annotations (ObjectMeta w) VolumeStatusAnnotationKey
                           = Some (OperationalStatus_name newStatus)
                       \<and> reservation w = reservation v))"
proof -
  define clvReq where "clvReq = \<lparr>PvcUUID = ReqName req, Capacity = GetRequiredBytes req, Sc = ''hdd'',
                       Location = AC_Location (Spec ac)\<rparr>"
  define call where "call = CreateLocalVolumeCall (AC_NodeId (Spec ac)) 300 clvReq"
  define outcome where "outcome = CreateLocalVolume mgr 300 clvReq"
  define newStatus where "newStatus = (if outcome = Reply () then Created else FailedToCreate)"
  define s0 where "s0 = s\<lparr>rpcs := rpcs s @ [call]\<rparr>"
  obtain r s1 where cv: "changeVolumeStatus c (ReqName req) newStatus s0 = (r, s1)"
    by (cases "changeVolumeStatus c (ReqName req) newStatus s0")
  have st: "(case outcome of Reply resp \<Rightarrow> Created | RpcError \<Rightarrow> FailedToCreate | DeadlineExceeded \<Rightarrow> FailedToCreate) = newStatus"
    by (cases outcome) (simp_all add: newStatus_def)
  have pv: "PvcUUID clvReq = ReqName req" by (simp add: clvReq_def)
  have run: "createLocalVolume c req ac s = (Inr (), s1)"
    using assms cv st pv
    by (simp add: createLocalVolume_def Let_def CreateLocalVolumeRequestTimeout_def
        clvReq_def [symmetric] call_def [symmetric] outcome_def [symmetric] s0_def [symmetric])
  have rp: "rpcs s1 = rpcs s @ [call]"
    using changeVolumeStatus_frame [OF cv] by (simp add: s0_def)
  have fl: "(newStatus = FailedToCreate) = (outcome = RpcError \<or> outcome = DeadlineExceeded)"
    by (cases outcome) (simp_all add: newStatus_def)
  have ps: "\<exists>w. find (hasKey (namespace c) (ReqName req)) (volumes s1) = Some w
               \<and> V_Status (Spec w) = newStatus
               \<and> Annotations (ObjectMeta w) VolumeStatusAnnotationKey = Some (OperationalStatus_name newStatus)
               \<and> reservation w = reservation v"
    if f: "find (hasKey (namespace c) (ReqName req)) (volumes s) = Some v"
      and r1: "refusals (faults s) < 10" and r2: "refusals (afterAnswer (faults s)) < 10" for v
  proof -
    have "find (hasKey (namespace c) (ReqName req)) (volumes s0) = Some v"
      and "refusals (faults s0) < 10" and "refusals (afterAnswer (faults s0)) < 10"
      using that by (simp_all add: s0_def)
    from changeVolumeStatus_persists [OF this, of newStatus] cv
    have "find (hasKey (namespace c) (ReqName req)) (volumes s1) = Some (changeStatus newStatus (Some v))"
      by auto
    then show ?thesis
      by (simp add: changeStatus_def reservation_def objKey_def)
  qed
  show ?thesis
    unfolding Let_def clvReq_def [symmetric] call_def [symmetric] outcome_def [symmetric]
      newStatus_def [symmetric] s0_def [symmetric]
    using run cv rp fl ps by simp
qed

theorem createLocalVolume_agent_call_witness:
  "(let s = sampleCluster\<lparr>volumes := [newVolumeCR ''v1'' (sampleAC ''node-A'' ''SN2'' 50)],
                           faults := [True, False, True]\<rparr>;
        s' = snd (createLocalVolume sampleController sampleRequest (sampleAC ''node-A'' ''SN2'' 50) s)
    in rpcs s' = [CreateLocalVolumeCall ''node-A'' 300 \<lparr>PvcUUID = ''v1'', Capacity = 40, Sc = ''hdd'', Location = ''SN2''\<rparr>]
       \<and> (\<exists>w. find (hasKey ''default'' ''v1'') (volumes s') = Some w \<and> V_Status (Spec w) = Created
              \<and> Annotations (ObjectMeta w) VolumeStatusAnnotationKey = Some ''Created''))
   \<and> (let c = sampleController\<lparr>communicators := [''node-A'' \<mapsto> sampleAgent\<lparr>CreateLocalVolume := \<lambda>t r. RpcError\<rparr>]\<rparr>;
        s = sampleCluster\<lparr>volumes := [newVolumeCR ''v1'' (sampleAC ''node-A'' ''SN2'' 50)]\<rparr>;
        s' = snd (createLocalVolume c sampleRequest (sampleAC ''node-A'' ''SN2'' 50) s)
    in rpcs s' = [CreateLocalVolumeCall ''node-A'' 300 \<lparr>PvcUUID = ''v1'', Capacity = 40, Sc = ''hdd'', Location = ''SN2''\<rparr>]
       \<and> (\<exists>w. find (hasKey ''default'' ''v1'') (volumes s') = Some w \<and> V_Status (Spec w) = FailedToCreate
              \<and> Annotations (ObjectMeta w) VolumeStatusAnnotationKey = Some ''FailedToCreate''))"
proof -
  let ?ac = "sampleAC ''node-A'' ''SN2'' 50"
  let ?v = "newVolumeCR ''v1'' ?ac"
  let ?s = "sampleCluster\<lparr>volumes := [?v], faults := [True, False, True]\<rparr>"
  let ?bad = "sampleAgent\<lparr>CreateLocalVolume := \<lambda>t r. RpcError\<rparr>"
  let ?c = "sampleController\<lparr>communicators := [''node-A'' \<mapsto> ?bad]\<rparr>"
  let ?t = "sampleCluster\<lparr>volumes := [?v]\<rparr>"
  have h: "communicators sampleController (AC_NodeId (Spec ?ac)) = Some sampleAgent"
    and h': "communicators ?c (AC_NodeId (Spec ?ac)) = Some ?bad"
    by (simp_all add: sample_defs)
  note th = createLocalVolume_agent_call [OF h, of sampleRequest ?s, unfolded Let_def]
  note th' = createLocalVolume_agent_call [OF h', of sampleRequest ?t, unfolded Let_def]
  have pre: "find (hasKey (namespace sampleController) (ReqName sampleRequest)) (volumes ?s) = Some ?v
      \<and> refusals (faults ?s) < 10 \<and> refusals (afterAnswer (faults ?s)) < 10"
    by (simp add: sample_defs hasKey_def newVolumeCR_def refusals_def afterAnswer_def)
  have pre': "find (hasKey (namespace ?c) (ReqName sampleRequest)) (volumes ?t) = Some ?v
      \<and> refusals (faults ?t) < 10 \<and> refusals (afterAnswer (faults ?t)) < 10"
    by (simp add: sample_defs hasKey_def newVolumeCR_def refusals_def afterAnswer_def)
  have e: "rpcs ?s = []" "rpcs ?t = []" "ReqName sampleRequest = ''v1''"
    "GetRequiredBytes sampleRequest = 40"
    "AC_NodeId (Spec ?ac) = ''node-A''" "AC_Location (Spec ?ac) = ''SN2''"
    "namespace sampleController = ''default''" "namespace ?c = ''default''"
    "\<And>t r. CreateLocalVolume sampleAgent t r = Reply ()"
    "\<And>t r. CreateLocalVolume ?bad t r = RpcError"
    by (simp_all add: sample_defs GetRequiredBytes_def)
  note calls = th [THEN conjunct2, THEN conjunct1]
  note calls' = th' [THEN conjunct2, THEN conjunct1]
  note persisted = th [THEN conjunct2, THEN conjunct2, THEN conjunct2, rule_format, OF pre]
  note persisted' = th' [THEN conjunct2, THEN conjunct2, THEN conjunct2, rule_format, OF pre']
  from calls persisted have one: "rpcs (snd (createLocalVolume sampleController sampleRequest ?ac ?s))
        = [CreateLocalVolumeCall ''node-A'' 300 \<lparr>PvcUUID = ''v1'', Capacity = 40, Sc = ''hdd'', Location = ''SN2''\<rparr>]
       \<and> (\<exists>w. find (hasKey ''default'' ''v1'') (volumes (snd (createLocalVolume sampleController sampleRequest ?ac ?s))) = Some w
              \<and> V_Status (Spec w) = Created
              \<and> Annotations (ObjectMeta w) VolumeStatusAnnotationKey = Some ''Created'')"
    by (auto simp: e)
  from calls' persisted' have two: "rpcs (snd (createLocalVolume ?c sampleRequest ?ac ?t))
        = [CreateLocalVolumeCall ''node-A'' 300 \<lparr>PvcUUID = ''v1'', Capacity = 40, Sc = ''hdd'', Location = ''SN2''\<rparr>]
       \<and> (\<exists>w. find (hasKey ''default'' ''v1'') (volumes (snd (createLocalVolume ?c sampleRequest ?ac ?t))) = Some w
              \<and> V_Status (Spec w) = FailedToCreate
              \<and> Annotations (ObjectMeta w) VolumeStatusAnnotationKey = Some ''FailedToCreate'')"
    by (auto simp: e)
  from one two show ?thesis unfolding Let_def by blast
qed

text \<open>
  C4, as stated, fails in three ways. When the node of the reserved AvailableCapacity
  has no agent client, the client read from the map is nil, the call on it panics, no
  agent is called, and the Volume stays in the status Creating. When the store fails
  ten updates in a row, \<open>changeVolumeStatus\<close> gives up, and the Volume stays in the
  status Creating although the agent has replied. When the controller's namespace is
  not the one CreateVolume writes on the Volume, \<open>changeVolumeStatus\<close> does not find
  the record, and the Volume stays in the status Creating.
\<close>

theorem createLocalVolume_agent_call_counterexample:
  "createLocalVolume (sampleController\<lparr>communicators := Map.empty\<rparr>) sampleRequest
      (sampleAC ''node-A'' ''SN2'' 50) sampleCluster = (Inl Panic, sampleCluster)
   \<and> fst (CreateVolume (sampleController\<lparr>communicators := Map.empty\<rparr>) \<lparr>seconds = 1\<rparr> sampleRequest sampleCluster)
       = Inl Panic
   \<and> rpcs (snd (CreateVolume (sampleController\<lparr>communicators := Map.empty\<rparr>) \<lparr>seconds = 1\<rparr> sampleRequest sampleCluster))
       = []
   \<and> map (\<lambda>v. (V_Owner (Spec v), V_Status (Spec v)))
        (volumes (snd (CreateVolume (sampleController\<lparr>communicators := Map.empty\<rparr>) \<lparr>seconds = 1\<rparr> sampleRequest sampleCluster)))
       = [(''node-A'', Creating)]
   \<and> (let s' = snd (createLocalVolume sampleController sampleRequest (sampleAC ''node-A'' ''SN2'' 50)
                  (sampleCluster\<lparr>volumes := [newVolumeCR ''v1'' (sampleAC ''node-A'' ''SN2'' 50)],
                     faults := [False, True, True, True, True, True, True, True, True, True, True]\<rparr>))
       in rpcs s' = [CreateLocalVolumeCall ''node-A'' 300 \<lparr>PvcUUID = ''v1'', Capacity = 40, Sc = ''hdd'', Location = ''SN2''\<rparr>]
          \<and> map (\<lambda>v. V_Status (Spec v)) (volumes s') = [Creating])
   \<and> (let s' = snd (createLocalVolume (sampleController\<lparr>namespace := ''csi''\<rparr>) sampleRequest (sampleAC ''node-A'' ''SN2'' 50)
                  (sampleCluster\<lparr>volumes := [newVolumeCR ''v1'' (sampleAC ''node-A'' ''SN2'' 50)]\<rparr>))
       in rpcs s' = [CreateLocalVolumeCall ''node-A'' 300 \<lparr>PvcUUID = ''v1'', Capacity = 40, Sc = ''hdd'', Location = ''SN2''\<rparr>]
          \<and> map (\<lambda>v. V_Status (Spec v)) (volumes s') = [Creating])"
  by (simp add: flow_defs sample_defs client_defs gateway_defs)

section \<open>What a CreateVolume leaves in the store\<close>

text \<open>
  The effect of each step of CreateVolume on the records, whatever calls the store
  fails: reads change nothing, the scheduler returns a listed record of the controller's
  namespace, the creation appends the Volume, the deletion removes the records with the
  key of the chosen one or fails, and a change of status keeps the reservation of every
  Volume.
\<close>

lemma ReadCR_found:
  "ReadCR c n s = (Inr v, s1) \<Longrightarrow> find (hasKey (namespace c) n) (volumes s) = Some v"
  by (auto simp: ReadCR_def client_Get_Volume_def api_call_def split: list.splits option.splits if_splits)

lemma ReadCR_NotFound:
  "ReadCR c n s = (Inl NotFound, s1) \<Longrightarrow> find (hasKey (namespace c) n) (volumes s) = None"
  by (auto simp: ReadCR_def client_Get_Volume_def api_call_def split: list.splits option.splits if_splits)

lemma bestFit_mem:
  assumes "bestFit r acs (None, a) = (Some ac, a')"
  shows "ac \<in> set acs"
  using bestFit_spec [OF assms] by (cases "\<exists>b \<in> set acs. r \<le>s AC_Size (Spec b) \<and> AC_Size (Spec b) <s a") auto

lemma ReadList_items:
  "ReadList c s = (Inr items, s1) \<Longrightarrow>
     items = filter (\<lambda>a. Namespace (ObjectMeta a) = namespace c) (capacities s)
     \<and> volumes s1 = volumes s \<and> capacities s1 = capacities s"
  by (auto simp: ReadList_def client_List_AC_def api_call_def split: list.splits if_splits)

lemma searchAvailableCapacity_Some:
  assumes "searchAvailableCapacity c pn r s = (Some ac, s2)"
  shows "ac \<in> set (capacities s) \<and> Namespace (ObjectMeta ac) = namespace c
       \<and> volumes s2 = volumes s \<and> capacities s2 = capacities s"
proof -
  obtain rl s1 where rl: "ReadList c s = (rl, s1)" by (cases "ReadList c s")
  show ?thesis
  proof (cases rl)
    case (Inl e)
    with assms rl show ?thesis by (simp add: searchAvailableCapacity_def)
  next
    case (Inr items)
    note it = ReadList_items [OF rl [unfolded Inr]]
    define node where "node = (if pn = [] then fst (mostACs (rotate (rangeSeed s1) (acNodeMapping items)) (pn, 0)) else pn)"
    obtain f' a' where bf: "bestFit r (filter (\<lambda>a. AC_NodeId (Spec a) = node) items) (None, MaxInt64) = (f', a')"
      by (cases "bestFit r (filter (\<lambda>a. AC_NodeId (Spec a) = node) items) (None, MaxInt64)")
    have "searchAvailableCapacity c pn r s = (f', s1)"
      using rl Inr bf by (simp add: searchAvailableCapacity_def node_def nodeACs_acNodeMapping Let_def)
    with assms have f': "f' = Some ac" and s2: "s2 = s1" by simp_all
    from bestFit_mem [OF bf [unfolded f']] have "ac \<in> set items" by simp
    with it s2 show ?thesis by auto
  qed
qed

lemma CreateCR_Volume_fresh:
  assumes "CreateCR_Volume c obj n s = (r, s3)"
    and "find (hasKey (namespace c) n) (volumes s) = None"
  shows "capacities s3 = capacities s \<and>
     (case r of Inl e \<Rightarrow> volumes s3 = volumes s
      | Inr w \<Rightarrow> w = obj \<and> volumes s3 = volumes s @ [obj] \<and> CreateVolumeObj obj \<in> set (calls s3))"
  using assms
  by (auto simp: CreateCR_Volume_def client_Get_Volume_def client_Create_Volume_def api_call_def
      split: list.splits option.splits if_splits prod.splits sum.splits)

lemma DeleteCR_AC_effect:
  "DeleteCR_AC c ac s = (r, s4) \<Longrightarrow>
     volumes s4 = volumes s \<and>
     (capacities s4 = capacities s \<or> capacities s4 = filter (\<lambda>a. \<not> sameKey ac a) (capacities s))"
  by (auto simp: DeleteCR_AC_def client_Delete_AC_def api_call_def split: list.splits if_splits)

lemma find_append_None: "find P xs = None \<Longrightarrow> find P (xs @ ys) = find P ys"
  by (induction xs) (auto split: if_splits)

lemma hasKey_objKey: "hasKey ns n v = (objKey v = (ns, n))"
  by (auto simp: hasKey_def objKey_def)

lemma sameKey_objKey: "sameKey obj v = (objKey v = objKey obj)"
  by (auto simp: sameKey_def hasKey_def objKey_def)

lemma find_replace_other:
  assumes "objKey obj \<noteq> (ns, n)"
  shows "find (hasKey ns n) (map (\<lambda>v. if sameKey obj v then obj else v) xs) = find (hasKey ns n) xs"
  using assms by (induction xs) (auto simp: hasKey_objKey sameKey_objKey)

lemma find_replace_same:
  assumes "objKey obj = (ns, n)"
  shows "find (hasKey ns n) (map (\<lambda>v. if sameKey obj v then obj else v) xs)
           = (case find (hasKey ns n) xs of None \<Rightarrow> None | Some w \<Rightarrow> Some obj)"
  using assms by (induction xs) (auto simp: hasKey_objKey sameKey_objKey)

lemma UpdateCR_volumes:
  "UpdateCR c obj s = (r, s1) \<Longrightarrow>
     (case r of Inl e \<Rightarrow> volumes s1 = volumes s
      | Inr u \<Rightarrow> volumes s1 = map (\<lambda>v. if sameKey obj v then obj else v) (volumes s))"
  by (auto simp: UpdateCR_def client_Update_Volume_def api_call_def split: list.splits if_splits)

lemma updateAttempts_volumes:
  "updateAttempts k c obj s = (r, s1) \<Longrightarrow>
     volumes s1 = volumes s \<or> volumes s1 = map (\<lambda>v. if sameKey obj v then obj else v) (volumes s)"
proof (induction k arbitrary: s)
  case 0
  then show ?case by simp
next
  case (Suc k)
  obtain r0 s0 where up: "UpdateCR c obj s = (r0, s0)" by (cases "UpdateCR c obj s")
  note uv = UpdateCR_volumes [OF up]
  show ?case
  proof (cases r0)
    case (Inl e)
    with Suc.prems up have "updateAttempts k c obj s0 = (r, s1)" by simp
    from Suc.IH [OF this] uv Inl show ?thesis by simp
  next
    case (Inr u)
    with Suc.prems up uv show ?thesis by auto
  qed
qed

lemma readAttempts_found:
  "readAttempts k c i vin s = (v, s1) \<Longrightarrow>
     v = vin \<or> (\<exists>v0. v = Some v0 \<and> find (hasKey (namespace c) i) (volumes s) = Some v0)"
proof (induction k arbitrary: s)
  case 0
  then show ?case by simp
next
  case (Suc k)
  obtain r0 s0 where rd: "ReadCR c i s = (r0, s0)" by (cases "ReadCR c i s")
  note fr = ReadCR_frame [OF rd]
  show ?case
  proof (cases r0)
    case (Inl e)
    with Suc.prems rd have "readAttempts k c i vin s0 = (v, s1)" by simp
    from Suc.IH [OF this] fr show ?thesis by simp
  next
    case (Inr found)
    with Suc.prems rd ReadCR_found [of c i s found s0] show ?thesis by auto
  qed
qed

lemma changeVolumeStatus_reservation:
  assumes "changeVolumeStatus c i st s = (r, s1)" and "(ns, n) \<noteq> ([], [])"
  shows "map_option reservation (find (hasKey ns n) (volumes s1))
           = map_option reservation (find (hasKey ns n) (volumes s))"
proof -
  obtain v s0 where rd: "readAttempts 10 c i None s = (v, s0)" by (cases "readAttempts 10 c i None s")
  with assms(1) have up: "updateAttempts 10 c (changeStatus st v) s0 = (r, s1)"
    by (simp add: changeVolumeStatus_def)
  have vs0: "volumes s0 = volumes s" using readAttempts_frame [OF rd] by simp
  let ?obj = "changeStatus st v"
  let ?m = "map (\<lambda>w. if sameKey ?obj w then ?obj else w) (volumes s)"
  have m: "map_option reservation (find (hasKey ns n) ?m) = map_option reservation (find (hasKey ns n) (volumes s))"
  proof (cases v)
    case None
    then have "objKey ?obj \<noteq> (ns, n)" using assms(2) by (auto simp: objKey_def changeStatus_def)
    then show ?thesis by (simp add: find_replace_other)
  next
    case (Some v0)
    with readAttempts_found [OF rd] have f: "find (hasKey (namespace c) i) (volumes s) = Some v0" by simp
    then have k: "objKey v0 = (namespace c, i)" by (auto simp: find_Some_iff hasKey_objKey)
    have ko: "objKey ?obj = objKey v0" and ro: "reservation ?obj = reservation v0"
      using Some by (simp_all add: objKey_def changeStatus_def reservation_def)
    show ?thesis
    proof (cases "(ns, n) = (namespace c, i)")
      case True
      with k ko have "objKey ?obj = (ns, n)" by simp
      from find_replace_same [OF this] f True ro show ?thesis by auto
    next
      case False
      with k ko have "objKey ?obj \<noteq> (ns, n)" by auto
      then show ?thesis by (simp add: find_replace_other)
    qed
  qed
  from updateAttempts_volumes [OF up] vs0 m show ?thesis by auto
qed

lemma waitLoop_effect:
  "waitLoop k c i sts s = ((reached, st), s1) \<Longrightarrow>
     volumes s1 = volumes s \<and> capacities s1 = capacities s
     \<and> (reached \<longrightarrow> find (hasKey (namespace c) i) (volumes s) \<noteq> None)"
proof (induction k arbitrary: s)
  case 0
  then show ?case by simp
next
  case (Suc k)
  obtain r0 s0 where rd: "ReadCR c i s = (r0, s0)" by (cases "ReadCR c i s")
  note fr = ReadCR_frame [OF rd]
  show ?case
  proof (cases r0)
    case (Inl e)
    with Suc.prems rd have "waitLoop k c i sts s0 = ((reached, st), s1)" by simp
    from Suc.IH [OF this] fr show ?thesis by simp
  next
    case (Inr v)
    note fd = ReadCR_found [OF rd [unfolded Inr]]
    show ?thesis
    proof (cases "find (\<lambda>x. V_Status (Spec v) = x) sts")
      case None
      with Suc.prems rd Inr have "waitLoop k c i sts s0 = ((reached, st), s1)" by simp
      from Suc.IH [OF this] fr show ?thesis by simp
    next
      case (Some x)
      with Suc.prems rd Inr fr fd show ?thesis by auto
    qed
  qed
qed

lemma awaitCreated_effect:
  assumes "awaitCreated c ctx req volumeCR s = (Inr vol, s1)"
  shows "volumes s1 = volumes s \<and> capacities s1 = capacities s
       \<and> find (hasKey (namespace c) (ReqName req)) (volumes s) \<noteq> None"
proof -
  obtain reached st s0 where w: "waitLoop (seconds ctx) c (ReqName req) [Created, FailedToCreate] s = ((reached, st), s0)"
    by (metis prod.collapse)
  with assms have "reached" and "s1 = s0"
    by (auto simp: awaitCreated_def waitVCRStatus_def split: if_splits)
  with waitLoop_effect [OF w] show ?thesis by simp
qed

lemma createLocalVolume_effect:
  assumes "createLocalVolume c req ac s = (Inr u, s5)" and "(ns, n) \<noteq> ([], [])"
  shows "capacities s5 = capacities s
       \<and> map_option reservation (find (hasKey ns n) (volumes s5))
           = map_option reservation (find (hasKey ns n) (volumes s))"
proof -
  from assms(1) obtain mgr where "communicators c (AC_NodeId (Spec ac)) = Some mgr"
    by (auto simp: createLocalVolume_def Let_def split: option.splits)
  with assms(1) obtain x st r where cv: "changeVolumeStatus c (ReqName req) st (s\<lparr>rpcs := x\<rparr>) = (r, s5)"
    by (auto simp: createLocalVolume_def Let_def split: prod.splits)
  from changeVolumeStatus_frame [OF cv] changeVolumeStatus_reservation [OF cv assms(2)]
  show ?thesis by simp
qed

lemma CreateVolume_reserved:
  assumes "CreateVolume c ctx req s = (Inr vol, s1)"
    and "find (hasKey (namespace c) (ReqName req)) (volumes s) = None"
  shows "\<exists>ac v. ac \<in> set (capacities s) \<and> Namespace (ObjectMeta ac) = namespace c
     \<and> (capacities s1 = capacities s \<or> capacities s1 = filter (\<lambda>a. \<not> sameKey ac a) (capacities s))
     \<and> find (hasKey (namespace c) (ReqName req)) (volumes s1) = Some v
     \<and> V_Owner (Spec v) = AC_NodeId (Spec ac) \<and> V_Location (Spec v) = AC_Location (Spec ac)
     \<and> V_Size (Spec v) = AC_Size (Spec ac)"
proof -
  let ?N = "ReqName req"
  let ?k = "hasKey (namespace c) ?N"
  from assms(1) have name: "?N \<noteq> []" by (auto simp: CreateVolume_def split: if_splits)
  obtain r0 sa where rd: "ReadCR c ?N s = (r0, sa)" by (cases "ReadCR c ?N s")
  note fa = ReadCR_frame [OF rd]
  have r0: "r0 = Inl NotFound"
  proof (cases r0)
    case (Inl e)
    with assms(1) rd show ?thesis by (auto simp: CreateVolume_def split: if_splits)
  next
    case (Inr v)
    with ReadCR_found [of c ?N s v sa] rd assms(2) show ?thesis by simp
  qed
  obtain rr s4 where rv: "reserveVolume c req sa = (rr, s4)" by (cases "reserveVolume c req sa")
  from assms(1) rd r0 rv obtain volumeCR ac where rr: "rr = Inr (volumeCR, ac)"
    by (cases rr) (auto simp: CreateVolume_def split: if_splits)
  from assms(1) rd r0 rv rr obtain u s5 where clv: "createLocalVolume c req ac s4 = (Inr u, s5)"
    and aw: "awaitCreated c ctx req volumeCR s5 = (Inr vol, s1)"
    by (auto simp: CreateVolume_def split: if_splits prod.splits sum.splits)
  from rv rr obtain node s2 s3 dr where pn: "preferredNodeOf req = Inr node"
    and se: "searchAvailableCapacity c node (GetRequiredBytes req) sa = (Some ac, s2)"
    and cr: "CreateCR_Volume c (newVolumeCR ?N ac) ?N s2 = (Inr volumeCR, s3)"
    and de: "DeleteCR_AC c ac s3 = (dr, s4)"
    by (auto simp: reserveVolume_def split: sum.splits prod.splits option.splits)
  note se' = searchAvailableCapacity_Some [OF se]
  have fresh2: "find ?k (volumes s2) = None" using se' fa assms(2) by simp
  from CreateCR_Volume_fresh [OF cr fresh2]
  have c3: "capacities s3 = capacities s2" and v3: "volumes s3 = volumes s2 @ [newVolumeCR ?N ac]"
    by simp_all
  note de' = DeleteCR_AC_effect [OF de]
  have key: "(namespace c, ?N) \<noteq> ([], [])" using name by simp
  note cl = createLocalVolume_effect [OF clv key]
  note aw' = awaitCreated_effect [OF aw]
  have caps: "capacities s1 = capacities s \<or> capacities s1 = filter (\<lambda>a. \<not> sameKey ac a) (capacities s)"
    using aw' cl de' c3 se' fa by auto
  from aw' obtain v where v: "find ?k (volumes s1) = Some v" by auto
  have "find ?k (volumes s4) = (if ?k (newVolumeCR ?N ac) then Some (newVolumeCR ?N ac) else None)"
    using de' v3 se' fa assms(2) by (simp add: find_append_None)
  with cl aw' v have "reservation v = reservation (newVolumeCR ?N ac)"
    by (auto split: if_splits)
  then have "V_Owner (Spec v) = AC_NodeId (Spec ac) \<and> V_Location (Spec v) = AC_Location (Spec ac)
     \<and> V_Size (Spec v) = AC_Size (Spec ac)"
    by (simp add: reservation_def newVolumeCR_def)
  with se' fa caps v show ?thesis by auto
qed

section \<open>The Volume record of a reservation\<close>






section \<open>CreateVolume followed by DeleteVolume\<close>

text \<open>
  What a successful DeleteVolume leaves of the AvailableCapacity records, when the store
  answers its calls and the agent's reply names the disk of the Volume: the records it
  found, and after them a record for that disk unless one with its key was there.
\<close>

lemma DeleteCR_Volume_frame:
  "DeleteCR_Volume c obj s = (r, s1) \<Longrightarrow>
     capacities s1 = capacities s \<and> (faults s = [] \<longrightarrow> faults s1 = [])"
  by (auto simp: DeleteCR_Volume_def client_Delete_Volume_def api_call_def split: list.splits if_splits)

lemma CreateCR_AC_answered:
  assumes "faults s = []"
  shows "capacities (snd (CreateCR_AC c (constructAvailableCapacityCR c name ac) name s))
     = (case find (hasKey (namespace c) name) (capacities s) of
          Some a \<Rightarrow> capacities s
        | None \<Rightarrow> capacities s @ [constructAvailableCapacityCR c name ac])"
proof (cases "find (hasKey (namespace c) name) (capacities s)")
  case None
  then have "\<not> (\<exists>a \<in> set (capacities s). hasKey (namespace c) name a)"
    by (simp add: find_None_iff)
  with None assms show ?thesis
    by (simp add: CreateCR_AC_def client_Get_AC_def client_Create_AC_def api_call_def
        constructAvailableCapacityCR_def sameKey_def)
next
  case (Some a)
  with assms show ?thesis
    by (simp add: CreateCR_AC_def client_Get_AC_def api_call_def)
qed

lemma DeleteVolume_reinstates:
  assumes del: "DeleteVolume c ctx req s = (Inr (), s2)"
    and nf: "faults s = []"
    and f: "find (hasKey (namespace c) (VolumeId req)) (volumes s) = Some v"
    and rn: "replyNamesDisk c ctx (VolumeId req) s"
  shows "capacities s2 =
     (let name = V_Owner (Spec v) @ ''-'' @ ToLower (V_Location (Spec v)) in
      case find (hasKey (namespace c) name) (capacities s) of
        Some a \<Rightarrow> capacities s
      | None \<Rightarrow> capacities s @ [constructAvailableCapacityCR c name
            \<lparr>AC_Size = V_Size (Spec v), AC_Type = StorageClass_ANY,
             AC_Location = V_Location (Spec v), AC_NodeId = V_Owner (Spec v)\<rparr>])"
proof -
  let ?t = "seconds (WithTimeout ctx CreateLocalVolumeRequestTimeout)"
  let ?dreq = "\<lparr>DelPvcUUID = VolumeId req\<rparr>"
  from rn f obtain mgr resp lv where comm: "communicators c (V_Owner (Spec v)) = Some mgr"
    and reply: "DeleteLocalVolume mgr ?t ?dreq = Reply resp"
    and rv: "RespVolume resp = Some lv"
    and sz: "LV_Size lv = V_Size (Spec v)" and loc: "LV_Location lv = V_Location (Spec v)"
    by (auto simp: replyNamesDisk_def split: option.splits rpc_result.splits)
  from del have ne: "VolumeId req \<noteq> []" by (auto simp: DeleteVolume_def split: if_splits)
  define sA where "sA = s\<lparr>calls := calls s @ [GetVolume (namespace c) (VolumeId req)]\<rparr>"
  define sB where "sB = sA\<lparr>rpcs := rpcs sA @ [DeleteLocalVolumeCall (V_Owner (Spec v)) ?t ?dreq]\<rparr>"
  have rd: "ReadCR c (VolumeId req) s = (Inr v, sA)"
    using ReadCR_answered [OF nf, of c "VolumeId req"] f by (simp add: sA_def)
  obtain r3 s3 where dv: "DeleteCR_Volume c v sB = (r3, s3)" by (cases "DeleteCR_Volume c v sB")
  define name where "name = V_Owner (Spec v) @ ''-'' @ ToLower (V_Location (Spec v))"
  define cr where "cr = constructAvailableCapacityCR c name
            \<lparr>AC_Size = V_Size (Spec v), AC_Type = StorageClass_ANY,
             AC_Location = V_Location (Spec v), AC_NodeId = V_Owner (Spec v)\<rparr>"
  from del ne rd comm reply rv sz loc dv
  have s2: "s2 = snd (CreateCR_AC c cr name s3)"
    by (auto simp: DeleteVolume_def Let_def sB_def [symmetric] name_def cr_def
        split: if_splits sum.splits prod.splits)
  have "capacities s3 = capacities s" and "faults s3 = []"
    using DeleteCR_Volume_frame [OF dv] nf by (simp_all add: sB_def sA_def)
  then have c3: "capacities s3 = capacities s" and f3: "faults s3 = []" by simp_all
  have "capacities s2 = capacities (snd (CreateCR_AC c cr name s3))" using s2 by simp
  also have "\<dots> = (case find (hasKey (namespace c) name) (capacities s3) of
          Some a \<Rightarrow> capacities s3
        | None \<Rightarrow> capacities s3 @ [cr])"
    unfolding cr_def by (rule CreateCR_AC_answered [OF f3])
  finally show ?thesis unfolding c3 Let_def name_def cr_def .
qed

lemma keySizes_reinstate:
  assumes "distinct (map objKey caps)" and "ac \<in> set caps"
    and "objKey cr = objKey ac" and "AC_Size (Spec cr) = AC_Size (Spec ac)"
  shows "set (map (\<lambda>a. (objKey a, AC_Size (Spec a))) (filter (\<lambda>a. \<not> sameKey ac a) caps @ [cr]))
       = set (map (\<lambda>a. (objKey a, AC_Size (Spec a))) caps)"
proof -
  have inj: "inj_on objKey (set caps)" using assms(1) by (simp add: distinct_map)
  have same: "a = ac" if "a \<in> set caps" and "sameKey ac a" for a
    using that inj assms(2) by (auto simp: sameKey_objKey inj_on_def)
  show ?thesis using assms(2,3,4) same by (auto simp: image_iff)
qed

text \<open>
  C7, amended. From a well-formed store that holds no Volume of the request's name, a
  successful CreateVolume followed by a successful DeleteVolume of that name, whose
  calls the store answers and for which the agent's reply names the disk reserved,
  leaves an AvailableCapacity set equal by key and size to the initial one. The store
  may fail any call of the CreateVolume that the latter survives.
\<close>

theorem CreateVolume_DeleteVolume_round_trip:
  assumes wf: "wellFormed s"
    and fresh: "find (hasKey (namespace c) (ReqName req)) (volumes s) = None"
    and create: "CreateVolume c ctx req s = (Inr vol, s1)"
    and answered: "faults s1 = []"
    and reply: "replyNamesDisk c ctx' (ReqName req) s1"
    and delete: "DeleteVolume c ctx' \<lparr>VolumeId = ReqName req\<rparr> s1 = (Inr (), s2)"
  shows "keySizes s2 = keySizes s"
proof -
  from CreateVolume_reserved [OF create fresh] obtain ac v
    where ac: "ac \<in> set (capacities s)" and ns: "Namespace (ObjectMeta ac) = namespace c"
      and caps: "capacities s1 = capacities s \<or> capacities s1 = filter (\<lambda>a. \<not> sameKey ac a) (capacities s)"
      and v: "find (hasKey (namespace c) (ReqName req)) (volumes s1) = Some v"
      and own: "V_Owner (Spec v) = AC_NodeId (Spec ac)" and loc: "V_Location (Spec v) = AC_Location (Spec ac)"
      and sz: "V_Size (Spec v) = AC_Size (Spec ac)"
    by blast
  define name where "name = V_Owner (Spec v) @ ''-'' @ ToLower (V_Location (Spec v))"
  define cr where "cr = constructAvailableCapacityCR c name
            \<lparr>AC_Size = V_Size (Spec v), AC_Type = StorageClass_ANY,
             AC_Location = V_Location (Spec v), AC_NodeId = V_Owner (Spec v)\<rparr>"
  from wf ac have canon: "canonicalAC ac" and dist: "distinct (map objKey (capacities s))"
    by (auto simp: wellFormed_def list_all_iff)
  have nm: "name = Name (ObjectMeta ac)"
    using canon own loc by (simp add: name_def canonicalAC_def)
  have key: "hasKey (namespace c) name a = sameKey ac a" for a :: AvailableCapacity
    using nm ns by (simp add: sameKey_def)
  have crk: "objKey cr = objKey ac" and crs: "AC_Size (Spec cr) = AC_Size (Spec ac)"
    using nm ns sz by (simp_all add: cr_def constructAvailableCapacityCR_def objKey_def)
  have dv: "VolumeId \<lparr>VolumeId = ReqName req\<rparr> = ReqName req" by simp
  have re0: "capacities s2 =
      (case find (hasKey (namespace c) name) (capacities s1) of
         Some a \<Rightarrow> capacities s1 | None \<Rightarrow> capacities s1 @ [cr])"
    using DeleteVolume_reinstates [OF delete answered, unfolded dv, OF v reply]
    unfolding Let_def name_def cr_def .
  have keyf: "hasKey (namespace c) name = sameKey ac" using key by (intro ext)
  note re = re0 [unfolded keyf]
  have self: "sameKey ac ac" by (simp add: sameKey_def hasKey_def)
  from caps show ?thesis
  proof
    assume c1: "capacities s1 = capacities s"
    with ac self have "find (sameKey ac) (capacities s1) \<noteq> None" by (auto simp: find_None_iff)
    with re c1 show ?thesis by (auto simp: keySizes_def)
  next
    assume c1: "capacities s1 = filter (\<lambda>a. \<not> sameKey ac a) (capacities s)"
    then have "find (sameKey ac) (capacities s1) = None" by (simp add: find_None_iff)
    with re c1 have "capacities s2 = filter (\<lambda>a. \<not> sameKey ac a) (capacities s) @ [cr]" by simp
    with keySizes_reinstate [OF dist ac crk crs] show ?thesis by (simp add: keySizes_def)
  qed
qed

theorem CreateVolume_DeleteVolume_round_trip_witness:
  "wellFormed sampleCluster
   \<and> fst (CreateVolume sampleController \<lparr>seconds = 1\<rparr> sampleRequest sampleCluster) = Inr sampleResponse
   \<and> fst (DeleteVolume sampleController \<lparr>seconds = 1\<rparr> \<lparr>VolumeId = ''v1''\<rparr>
        (snd (CreateVolume sampleController \<lparr>seconds = 1\<rparr> sampleRequest sampleCluster))) = Inr ()
   \<and> keySizes (snd (DeleteVolume sampleController \<lparr>seconds = 1\<rparr> \<lparr>VolumeId = ''v1''\<rparr>
        (snd (CreateVolume sampleController \<lparr>seconds = 1\<rparr> sampleRequest sampleCluster))))
      = keySizes sampleCluster"
proof -
  let ?s1 = "snd (CreateVolume sampleController \<lparr>seconds = 1\<rparr> sampleRequest sampleCluster)"
  let ?s2 = "snd (DeleteVolume sampleController \<lparr>seconds = 1\<rparr> \<lparr>VolumeId = ''v1''\<rparr> ?s1)"
  have n: "ReqName sampleRequest = ''v1''" by (simp add: sampleRequest_def)
  have wf: "wellFormed sampleCluster"
    by (simp add: wellFormed_def canonicalAC_def objKey_def sample_defs ToLower_def toLowerChar_def)
  have fresh: "find (hasKey (namespace sampleController) (ReqName sampleRequest)) (volumes sampleCluster) = None"
    by (simp add: sample_defs)
  have cr: "fst (CreateVolume sampleController \<lparr>seconds = 1\<rparr> sampleRequest sampleCluster) = Inr sampleResponse"
    by (simp add: flow_defs sample_defs client_defs gateway_defs sampleResponse_def)
  then have create: "CreateVolume sampleController \<lparr>seconds = 1\<rparr> sampleRequest sampleCluster = (Inr sampleResponse, ?s1)"
    by (simp add: prod_eq_iff)
  have answered: "faults ?s1 = []"
    by (simp add: flow_defs sample_defs client_defs gateway_defs)
  have reply: "replyNamesDisk sampleController \<lparr>seconds = 1\<rparr> (ReqName sampleRequest) ?s1"
    by (simp add: replyNamesDisk_def flow_defs sample_defs client_defs gateway_defs)
  have de: "fst (DeleteVolume sampleController \<lparr>seconds = 1\<rparr> \<lparr>VolumeId = ''v1''\<rparr> ?s1) = Inr ()"
    by (simp add: flow_defs sample_defs client_defs gateway_defs)
  then have delete: "DeleteVolume sampleController \<lparr>seconds = 1\<rparr> \<lparr>VolumeId = ReqName sampleRequest\<rparr> ?s1 = (Inr (), ?s2)"
    by (simp add: prod_eq_iff n)
  from wf cr de CreateVolume_DeleteVolume_round_trip [OF wf fresh create answered reply delete]
  show ?thesis by simp
qed

text \<open>
  C7, as stated, fails in two ways. When the store fails the read that precedes the
  re-creation of the AvailableCapacity (the eleventh call), DeleteVolume logs the
  failure and succeeds, and the set has lost the reserved disk. When the Volume exists
  already, in status Created, CreateVolume succeeds without reserving anything, and
  the DeleteVolume that follows adds the Volume's disk to the set.
\<close>

theorem CreateVolume_DeleteVolume_round_trip_counterexample:
  "(let s = sampleCluster\<lparr>faults := [False, False, False, False, False, False, False, False, False, False, True]\<rparr>;
        s1 = snd (CreateVolume sampleController \<lparr>seconds = 1\<rparr> sampleRequest s);
        s2 = snd (DeleteVolume sampleController \<lparr>seconds = 1\<rparr> \<lparr>VolumeId = ''v1''\<rparr> s1)
    in wellFormed s
       \<and> fst (CreateVolume sampleController \<lparr>seconds = 1\<rparr> sampleRequest s) = Inr sampleResponse
       \<and> replyNamesDisk sampleController \<lparr>seconds = 1\<rparr> ''v1'' s1
       \<and> fst (DeleteVolume sampleController \<lparr>seconds = 1\<rparr> \<lparr>VolumeId = ''v1''\<rparr> s1) = Inr ()
       \<and> keySizes s = {((''default'', ''node-A-sn1''), 100), ((''default'', ''node-A-sn2''), 50)}
       \<and> keySizes s2 = {((''default'', ''node-A-sn1''), 100)}
       \<and> keySizes s2 \<noteq> keySizes s)
   \<and> (let s = sampleCluster\<lparr>volumes := [changeStatus Created (Some (newVolumeCR ''v1'' (sampleAC ''node-A'' ''SN2'' 50)))],
                             capacities := [sampleAC ''node-A'' ''SN1'' 100]\<rparr>;
        s1 = snd (CreateVolume sampleController \<lparr>seconds = 1\<rparr> sampleRequest s);
        s2 = snd (DeleteVolume sampleController \<lparr>seconds = 1\<rparr> \<lparr>VolumeId = ''v1''\<rparr> s1)
    in wellFormed s
       \<and> fst (CreateVolume sampleController \<lparr>seconds = 1\<rparr> sampleRequest s) = Inr sampleResponse
       \<and> replyNamesDisk sampleController \<lparr>seconds = 1\<rparr> ''v1'' s1
       \<and> fst (DeleteVolume sampleController \<lparr>seconds = 1\<rparr> \<lparr>VolumeId = ''v1''\<rparr> s1) = Inr ()
       \<and> keySizes s = {((''default'', ''node-A-sn1''), 100)}
       \<and> keySizes s2 = {((''default'', ''node-A-sn1''), 100), ((''default'', ''node-A-sn2''), 50)}
       \<and> keySizes s2 \<noteq> keySizes s)"
proof -
  have ev: "(let s = sampleCluster\<lparr>faults := [False, False, False, False, False, False, False, False, False, False, True]\<rparr>;
        s1 = snd (CreateVolume sampleController \<lparr>seconds = 1\<rparr> sampleRequest s);
        s2 = snd (DeleteVolume sampleController \<lparr>seconds = 1\<rparr> \<lparr>VolumeId = ''v1''\<rparr> s1)
    in wellFormed s
       \<and> fst (CreateVolume sampleController \<lparr>seconds = 1\<rparr> sampleRequest s) = Inr sampleResponse
       \<and> replyNamesDisk sampleController \<lparr>seconds = 1\<rparr> ''v1'' s1
       \<and> fst (DeleteVolume sampleController \<lparr>seconds = 1\<rparr> \<lparr>VolumeId = ''v1''\<rparr> s1) = Inr ()
       \<and> keySizes s = {((''default'', ''node-A-sn1''), 100), ((''default'', ''node-A-sn2''), 50)}
       \<and> keySizes s2 = {((''default'', ''node-A-sn1''), 100)})
   \<and> (let s = sampleCluster\<lparr>volumes := [changeStatus Created (Some (newVolumeCR ''v1'' (sampleAC ''node-A'' ''SN2'' 50)))],
                             capacities := [sampleAC ''node-A'' ''SN1'' 100]\<rparr>;
        s1 = snd (CreateVolume sampleController \<lparr>seconds = 1\<rparr> sampleRequest s);
        s2 = snd (DeleteVolume sampleController \<lparr>seconds = 1\<rparr> \<lparr>VolumeId = ''v1''\<rparr> s1)
    in wellFormed s
       \<and> fst (CreateVolume sampleController \<lparr>seconds = 1\<rparr> sampleRequest s) = Inr sampleResponse
       \<and> replyNamesDisk sampleController \<lparr>seconds = 1\<rparr> ''v1'' s1
       \<and> fst (DeleteVolume sampleController \<lparr>seconds = 1\<rparr> \<lparr>VolumeId = ''v1''\<rparr> s1) = Inr ()
       \<and> keySizes s = {((''default'', ''node-A-sn1''), 100)}
       \<and> keySizes s2 = {((''default'', ''node-A-sn1''), 100), ((''default'', ''node-A-sn2''), 50)})"
    by (simp add: flow_defs sample_defs client_defs gateway_defs sampleResponse_def replyNamesDisk_def
        wellFormed_def canonicalAC_def objKey_def keySizes_def insert_commute)
  have ne: "{((''default'', ''node-A-sn1''), 100 :: int64)}
      \<noteq> {((''default'', ''node-A-sn1''), 100), ((''default'', ''node-A-sn2''), 50)}"
    by auto
  from ev ne show ?thesis unfolding Let_def by metis
qed

section \<open>DeleteVolume of a Volume that is gone\<close>

lemma DeleteCR_Volume_removes:
  "DeleteCR_Volume c v s = (Inr u, s1) \<Longrightarrow> volumes s1 = filter (\<lambda>w. \<not> sameKey v w) (volumes s)"
  by (auto simp: DeleteCR_Volume_def client_Delete_Volume_def api_call_def split: list.splits if_splits)

lemma CreateCR_AC_volumes:
  "CreateCR_AC c obj n s = (r, s1) \<Longrightarrow> volumes s1 = volumes s"
  by (auto simp: CreateCR_AC_def client_Get_AC_def client_Create_AC_def api_call_def
      split: list.splits option.splits if_splits prod.splits sum.splits)

lemma find_filter_removed:
  assumes "hasKey ns n v"
  shows "find (hasKey ns n) (filter (\<lambda>w. \<not> sameKey v w) xs) = None"
  using assms by (auto simp: find_None_iff hasKey_objKey sameKey_objKey)

text \<open>
  A successful DeleteVolume, whatever calls the store fails, is of a volume id that is
  not empty and leaves no Volume record of that id.
\<close>

lemma DeleteVolume_removes:
  assumes "DeleteVolume c ctx req s = (Inr (), s1)"
  shows "VolumeId req \<noteq> [] \<and> find (hasKey (namespace c) (VolumeId req)) (volumes s1) = None"
proof -
  from assms have ne: "VolumeId req \<noteq> []" by (auto simp: DeleteVolume_def split: if_splits)
  obtain r0 sA where rd: "ReadCR c (VolumeId req) s = (r0, sA)" by (cases "ReadCR c (VolumeId req) s")
  note fa = ReadCR_frame [OF rd]
  have "find (hasKey (namespace c) (VolumeId req)) (volumes s1) = None"
  proof (cases r0)
    case (Inl e)
    with assms ne rd have "e = NotFound" and "s1 = sA"
      by (auto simp: DeleteVolume_def split: if_splits)
    with ReadCR_NotFound [of c "VolumeId req" s sA] rd Inl fa show ?thesis by simp
  next
    case (Inr v)
    from ReadCR_found [OF rd [unfolded Inr]] have hk: "hasKey (namespace c) (VolumeId req) v"
      by (auto simp: find_Some_iff)
    from assms ne rd Inr obtain x u s3 r cr nm
      where dv: "DeleteCR_Volume c v (sA\<lparr>rpcs := x\<rparr>) = (Inr u, s3)"
        and ca: "CreateCR_AC c cr nm s3 = (r, s1)"
      by (auto simp: DeleteVolume_def Let_def
          split: if_splits option.splits rpc_result.splits sum.splits prod.splits)
    from DeleteCR_Volume_removes [OF dv] CreateCR_AC_volumes [OF ca]
    have "volumes s1 = filter (\<lambda>w. \<not> sameKey v w) (volumes sA)" by simp
    then show ?thesis by (simp add: find_filter_removed [OF hk])
  qed
  with ne show ?thesis by simp
qed

text \<open>
  C6, amended. For a volume id that is not empty and has no Volume record, and in
  particular in the state that a successful DeleteVolume of that id has left, when the
  store answers the read, DeleteVolume returns success and the cluster it leaves differs
  from the one it found only by the read: one call recorded, one entry of \<open>faults\<close> used.
\<close>

theorem DeleteVolume_absent:
  assumes "take 1 (faults s) \<noteq> [True]"
    and "VolumeId req \<noteq> [] \<and> find (hasKey (namespace c) (VolumeId req)) (volumes s) = None
         \<or> (\<exists>ctx0 s0. DeleteVolume c ctx0 req s0 = (Inr (), s))"
  shows "DeleteVolume c ctx req s =
           (Inr (), s\<lparr>faults := tl (faults s), calls := calls s @ [GetVolume (namespace c) (VolumeId req)]\<rparr>)"
proof -
  from assms(2) have "VolumeId req \<noteq> [] \<and> find (hasKey (namespace c) (VolumeId req)) (volumes s) = None"
    using DeleteVolume_removes by blast
  with assms(1) show ?thesis
    by (cases "faults s") (auto simp: DeleteVolume_def ReadCR_def client_Get_Volume_def api_call_def)
qed

theorem DeleteVolume_absent_witness:
  "DeleteVolume sampleController \<lparr>seconds = 5\<rparr> \<lparr>VolumeId = ''vX''\<rparr> sampleCluster =
     (Inr (), sampleCluster\<lparr>calls := [GetVolume ''default'' ''vX'']\<rparr>)
   \<and> (let s1 = snd (CreateVolume sampleController \<lparr>seconds = 1\<rparr> sampleRequest sampleCluster);
          s2 = snd (DeleteVolume sampleController \<lparr>seconds = 1\<rparr> \<lparr>VolumeId = ''v1''\<rparr> s1)
      in map (Name \<circ> ObjectMeta) (volumes s1) = [''v1'']
         \<and> fst (DeleteVolume sampleController \<lparr>seconds = 1\<rparr> \<lparr>VolumeId = ''v1''\<rparr> s1) = Inr ()
         \<and> DeleteVolume sampleController \<lparr>seconds = 1\<rparr> \<lparr>VolumeId = ''v1''\<rparr> s2
             = (Inr (), s2\<lparr>faults := tl (faults s2), calls := calls s2 @ [GetVolume ''default'' ''v1'']\<rparr>))"
proof -
  let ?s1 = "snd (CreateVolume sampleController \<lparr>seconds = 1\<rparr> sampleRequest sampleCluster)"
  let ?s2 = "snd (DeleteVolume sampleController \<lparr>seconds = 1\<rparr> \<lparr>VolumeId = ''v1''\<rparr> ?s1)"
  have h1: "take 1 (faults sampleCluster) \<noteq> [True]"
    "VolumeId \<lparr>VolumeId = ''vX''\<rparr> \<noteq> [] \<and> find (hasKey (namespace sampleController) (VolumeId \<lparr>VolumeId = ''vX''\<rparr>)) (volumes sampleCluster) = None
      \<or> (\<exists>ctx0 s0. DeleteVolume sampleController ctx0 \<lparr>VolumeId = ''vX''\<rparr> s0 = (Inr (), sampleCluster))"
    by (simp_all add: sample_defs)
  have v1: "map (Name \<circ> ObjectMeta) (volumes ?s1) = [''v1'']"
    by (simp add: flow_defs sample_defs client_defs gateway_defs)
  have de: "fst (DeleteVolume sampleController \<lparr>seconds = 1\<rparr> \<lparr>VolumeId = ''v1''\<rparr> ?s1) = Inr ()"
    by (simp add: flow_defs sample_defs client_defs gateway_defs)
  then have "DeleteVolume sampleController \<lparr>seconds = 1\<rparr> \<lparr>VolumeId = ''v1''\<rparr> ?s1 = (Inr (), ?s2)"
    by (simp add: prod_eq_iff)
  then have h2b: "VolumeId \<lparr>VolumeId = ''v1''\<rparr> \<noteq> [] \<and> find (hasKey (namespace sampleController) (VolumeId \<lparr>VolumeId = ''v1''\<rparr>)) (volumes ?s2) = None
      \<or> (\<exists>ctx0 s0. DeleteVolume sampleController ctx0 \<lparr>VolumeId = ''v1''\<rparr> s0 = (Inr (), ?s2))"
    by blast
  have h2a: "take 1 (faults ?s2) \<noteq> [True]"
    by (simp add: flow_defs sample_defs client_defs gateway_defs)
  note t1 = DeleteVolume_absent [OF h1, of "\<lparr>seconds = 5\<rparr>"]
  note t2 = DeleteVolume_absent [OF h2a h2b, of "\<lparr>seconds = 1\<rparr>"]
  have n: "namespace sampleController = ''default''" by (simp add: sampleController_def)
  from t1 have c1: "DeleteVolume sampleController \<lparr>seconds = 5\<rparr> \<lparr>VolumeId = ''vX''\<rparr> sampleCluster =
     (Inr (), sampleCluster\<lparr>calls := [GetVolume ''default'' ''vX'']\<rparr>)"
    by (simp add: sample_defs)
  from t2 n have c2: "DeleteVolume sampleController \<lparr>seconds = 1\<rparr> \<lparr>VolumeId = ''v1''\<rparr> ?s2
             = (Inr (), ?s2\<lparr>faults := tl (faults ?s2), calls := calls ?s2 @ [GetVolume ''default'' ''v1'']\<rparr>)"
    by simp
  from c1 v1 de c2 show ?thesis unfolding Let_def by blast
qed

end
